theory Spec2Isabelle
  imports Main
begin

section \<open>JSON values and the JavaScript operations the site relies on\<close>

text \<open>
  The dataset reaches the scripts through \<^verbatim>\<open>response.json()\<close>, so every value they handle is
  a JSON value. An object is the list of its own properties in the order in which
  \<^verbatim>\<open>Object.keys\<close> enumerates them (a parsed object has no two properties of the same name);
  \<^verbatim>\<open>undefined\<close>, which is not a JSON value, is the \<open>None\<close> of \<open>json option\<close>.
  Numbers are the integers a double holds exactly; rendering fractional numbers needs
  floating point and is left out. Strings are byte strings (UTF-8), and the case mapping and
  the white space of the model are those of ASCII.
\<close>

datatype json =
    JNull
  | JBool bool
  | JNum int
  | JStr string
  | JArr "json list"
  | JObj "(string \<times> json) list"

text \<open>What a \<^verbatim>\<open>throw\<close> carries: a \<^verbatim>\<open>TypeError\<close> or \<^verbatim>\<open>SyntaxError\<close> of the runtime, or
  \<^verbatim>\<open>new Error(msg)\<close>.\<close>

datatype error = TypeError | SyntaxError | Error string

text \<open>
  \<^verbatim>\<open>v.k\<close> and \<^verbatim>\<open>v[k]\<close> for the property names the scripts read (\<^verbatim>\<open>id\<close>, \<^verbatim>\<open>brand\<close>,
  \<^verbatim>\<open>model\<close>, \<^verbatim>\<open>items\<close>, \<^verbatim>\<open>name\<close>, the names of \<open>specOrder\<close>, ...), none of which a
  prototype defines: an object gives its own property, any other value but \<^verbatim>\<open>null\<close> gives
  \<^verbatim>\<open>undefined\<close>. Reading a property of \<^verbatim>\<open>null\<close> throws, see \<open>get_prop\<close>.
\<close>

fun read_prop :: "json \<Rightarrow> string \<Rightarrow> json option" where
  "read_prop (JObj kvs) k = map_of kvs k"
| "read_prop _ k = None"

definition get_prop :: "json \<Rightarrow> string \<Rightarrow> error + json option" where
  "get_prop v k = (if v = JNull then Inl TypeError else Inr (read_prop v k))"

text \<open>Optional chaining \<^verbatim>\<open>v?.k\<close>: \<^verbatim>\<open>undefined\<close> when \<open>v\<close> is \<^verbatim>\<open>null\<close> or \<^verbatim>\<open>undefined\<close>.\<close>

definition opt_prop :: "json option \<Rightarrow> string \<Rightarrow> json option" where
  "opt_prop v k = (case v of None \<Rightarrow> None | Some w \<Rightarrow> read_prop w k)"

text \<open>\<^verbatim>\<open>Object.keys(v)\<close> and \<^verbatim>\<open>Object.values(v)\<close> of an object or an array.\<close>

fun object_keys :: "json \<Rightarrow> string list" where
  "object_keys (JObj kvs) = map fst kvs"
| "object_keys _ = []"

fun object_values :: "json \<Rightarrow> json list" where
  "object_values (JObj kvs) = map snd kvs"
| "object_values (JArr vs) = vs"
| "object_values _ = []"

text \<open>Truthiness, as \<^verbatim>\<open>if (v)\<close>, \<^verbatim>\<open>!v\<close>, \<^verbatim>\<open>filter(v => v)\<close> and \<^verbatim>\<open>||\<close> test it.\<close>

fun truthy :: "json \<Rightarrow> bool" where
  "truthy JNull = False"
| "truthy (JBool b) = b"
| "truthy (JNum n) = (n \<noteq> 0)"
| "truthy (JStr s) = (s \<noteq> [])"
| "truthy (JArr vs) = True"
| "truthy (JObj kvs) = True"

text \<open>Decimal digits of a number, for \<^verbatim>\<open>String(n)\<close>.\<close>

fun digits :: "nat \<Rightarrow> string" where
  "digits n = (if n < 10 then [''0123456789'' ! n]
               else digits (n div 10) @ [''0123456789'' ! (n mod 10)])"

declare digits.simps [simp del]

definition show_int :: "int \<Rightarrow> string" where
  "show_int i = (if i < 0 then CHR ''-'' # digits (nat (- i)) else digits (nat i))"

text \<open>\<^verbatim>\<open>xs.join(sep)\<close> on strings.\<close>

fun join :: "string \<Rightarrow> string list \<Rightarrow> string" where
  "join sep [] = []"
| "join sep [x] = x"
| "join sep (x # y # ys) = x @ sep @ join sep (y # ys)"

text \<open>
  \<^verbatim>\<open>String(v)\<close>, which is also what a template literal and \<^verbatim>\<open>Array.prototype.join\<close> apply
  to a value: an array is its elements joined by commas, with \<^verbatim>\<open>null\<close> elements empty, and an
  object is \<^verbatim>\<open>[object Object]\<close>.
\<close>

fun js_String :: "json \<Rightarrow> string" where
  "js_String JNull = ''null''"
| "js_String (JBool b) = (if b then ''true'' else ''false'')"
| "js_String (JNum n) = show_int n"
| "js_String (JStr s) = s"
| "js_String (JArr vs) = join '','' (map (\<lambda>v. if v = JNull then [] else js_String v) vs)"
| "js_String (JObj kvs) = ''[object Object]''"

text \<open>A template-literal hole \<^verbatim>\<open>${e}\<close>, where \<open>e\<close> may be \<^verbatim>\<open>undefined\<close>.\<close>

definition template :: "json option \<Rightarrow> string" where
  "template v = (case v of None \<Rightarrow> ''undefined'' | Some w \<Rightarrow> js_String w)"

text \<open>\<^verbatim>\<open>s.toLowerCase()\<close> on ASCII letters.\<close>

definition lower_char :: "char \<Rightarrow> char" where
  "lower_char c =
     (case map_of (zip ''ABCDEFGHIJKLMNOPQRSTUVWXYZ'' ''abcdefghijklmnopqrstuvwxyz'') c of
        None \<Rightarrow> c
      | Some l \<Rightarrow> l)"

definition toLowerCase :: "string \<Rightarrow> string" where
  "toLowerCase s = map lower_char s"

text \<open>\<^verbatim>\<open>s.includes(q)\<close>: \<open>q\<close> occurs in \<open>s\<close> as a contiguous run.\<close>

fun starts_with :: "string \<Rightarrow> string \<Rightarrow> bool" where
  "starts_with s [] = True"
| "starts_with [] (c # q) = False"
| "starts_with (x # s) (c # q) = (x = c \<and> starts_with s q)"

fun js_includes :: "string \<Rightarrow> string \<Rightarrow> bool" where
  "js_includes [] q = (q = [])"
| "js_includes (x # s) q = (starts_with (x # s) q \<or> js_includes s q)"

text \<open>\<^verbatim>\<open>s.split(',')\<close> and \<^verbatim>\<open>s.trim()\<close>.\<close>

fun split_comma :: "string \<Rightarrow> string list" where
  "split_comma [] = [[]]"
| "split_comma (c # s) =
     (if c = CHR '','' then [] # split_comma s
      else (case split_comma s of [] \<Rightarrow> [[c]] | w # ws \<Rightarrow> (c # w) # ws))"

definition is_space :: "char \<Rightarrow> bool" where
  "is_space c = (c \<in> set [CHR 0x09, CHR 0x0A, CHR 0x0B, CHR 0x0C, CHR 0x0D, CHR 0x20])"

definition trim :: "string \<Rightarrow> string" where
  "trim s = rev (dropWhile is_space (rev (dropWhile is_space s)))"

section \<open>The comparison page (assets/js/site.js)\<close>

subsection \<open>Fetching the dataset\<close>

text \<open>
  What \<^verbatim>\<open>fetch(url)\<close> followed by \<^verbatim>\<open>response.json()\<close> can do: the request fails, or a
  response arrives with its \<^verbatim>\<open>ok\<close> flag and a body that parses to a JSON value or does not.
\<close>

datatype fetch_result = NetworkError | Response bool "json option"

text \<open>\<^verbatim>\<open>fetchPhonesData\<close> catches every failure and returns the empty array instead.\<close>

fun fetchPhonesData :: "fetch_result \<Rightarrow> json" where
  "fetchPhonesData NetworkError = JArr []"
| "fetchPhonesData (Response ok body) =
     (if \<not> ok then JArr []
      else (case body of None \<Rightarrow> JArr [] | Some v \<Rightarrow> v))"

subsection \<open>The record resolver\<close>

text \<open>
  \<^verbatim>\<open>phones.find(p => p.id === id)\<close> on an array: the first element whose \<^verbatim>\<open>id\<close> is the
  string \<open>id\<close>, \<^verbatim>\<open>undefined\<close> when there is none. The callback throws on a \<^verbatim>\<open>null\<close> element
  it reaches.
\<close>

fun find_phone :: "string \<Rightarrow> json list \<Rightarrow> error + json option" where
  "find_phone ident [] = Inr None"
| "find_phone ident (p # ps) =
     (case get_prop p ''id'' of
        Inl e \<Rightarrow> Inl e
      | Inr v \<Rightarrow> if v = Some (JStr ident) then Inr (Some p) else find_phone ident ps)"

text \<open>\<^verbatim>\<open>selectedIds.map(id => phones.find(...))\<close>, stopping at the first throw.\<close>

fun find_all :: "string list \<Rightarrow> json list \<Rightarrow> error + json option list" where
  "find_all [] phones = Inr []"
| "find_all (ident # ids) phones =
     (case find_phone ident phones of
        Inl e \<Rightarrow> Inl e
      | Inr r \<Rightarrow> (case find_all ids phones of Inl e \<Rightarrow> Inl e | Inr rs \<Rightarrow> Inr (r # rs)))"

text \<open>
  The resolver of \<^verbatim>\<open>generateComparisonTable\<close>:
  \<^verbatim>\<open>selectedIds.map(id => phones.find(p => p.id === id)).filter(p => p !== undefined)\<close>.
  A value that is not an array has no \<^verbatim>\<open>find\<close> method, and calling it throws.
\<close>

definition resolve :: "string list \<Rightarrow> json \<Rightarrow> error + json list" where
  "resolve selectedIds phones =
     (case phones of
        JArr ps \<Rightarrow>
          (case find_all selectedIds ps of
             Inl e \<Rightarrow> Inl e
           | Inr rs \<Rightarrow> Inr (List.map_filter (\<lambda>r. r) rs))
      | _ \<Rightarrow> if selectedIds = [] then Inr [] else Inl TypeError)"

subsection \<open>The page the script runs on\<close>

text \<open>
  The parts of the document and of \<^verbatim>\<open>window.location\<close> that the comparison script reads or
  writes. An element the page may lack is an option, \<open>None\<close> when a lookup of it returns
  \<^verbatim>\<open>null\<close>. The \<^verbatim>\<open>innerHTML\<close> of an element is the markup string last assigned to it.
\<close>

record message_box =
  msg_text :: string
  msg_display :: string

record script_tag =
  script_type :: string
  data_product_schema :: "string option"
  script_text :: string

record comparison_page =
  data_ids :: "string option"
  search_params :: "(string \<times> string) list"
  href :: string
  title_text :: "string option"
  meta_description :: "string option"
  page_title :: "string option"
  header_row :: "string option"
  table_body :: "string option"
  error_message :: "message_box option"
  head_scripts :: "script_tag list"
  body_scripts :: "script_tag list"

text \<open>
  \<open>data_ids\<close> is the \<^verbatim>\<open>data-ids\<close> attribute of the first element that has one,
  \<open>search_params\<close> the name/value pairs of \<^verbatim>\<open>new URLSearchParams(window.location.search)\<close>,
  whose \<^verbatim>\<open>get\<close> returns the first value of a name, and \<open>head_scripts\<close>, \<open>body_scripts\<close>
  the \<^verbatim>\<open>script\<close> elements of the document in document order.
\<close>

subsection \<open>Where the identifiers come from\<close>

definition getQueryParams :: "comparison_page \<Rightarrow> string list" where
  "getQueryParams d =
     (case map_of (search_params d) ''ids'' of
        None \<Rightarrow> []
      | Some ids \<Rightarrow> if ids \<noteq> [] then map trim (split_comma ids) else [])"

definition getComparisonIds :: "comparison_page \<Rightarrow> string list" where
  "getComparisonIds d =
     (case data_ids d of
        Some dataIds \<Rightarrow> if dataIds \<noteq> [] then map trim (split_comma dataIds) else []
      | None \<Rightarrow> getQueryParams d)"

subsection \<open>Flattening a field value\<close>

text \<open>The dash glyph U+2014 and the en dash U+2013 of the script's literals, in UTF-8.\<close>

definition dash :: string where
  "dash = [CHR 0xE2, CHR 0x80, CHR 0x94]"

definition en_dash :: string where
  "en_dash = [CHR 0xE2, CHR 0x80, CHR 0x93]"

fun flattenValue :: "json option \<Rightarrow> string" where
  "flattenValue None = dash"
| "flattenValue (Some JNull) = dash"
| "flattenValue (Some (JObj kvs)) =
     join '' / '' (map js_String (filter truthy (object_values (JObj kvs))))"
| "flattenValue (Some (JArr vs)) =
     join '' / '' (map js_String (filter truthy (object_values (JArr vs))))"
| "flattenValue (Some v) = js_String v"

subsection \<open>Page title, description and heading\<close>

text \<open>
  The phones handed to the functions below were returned by \<open>find_phone\<close>, which read their
  \<^verbatim>\<open>id\<close>: none of them is \<^verbatim>\<open>null\<close>, and reading their properties cannot throw.
\<close>

definition brand_model :: "json \<Rightarrow> string" where
  "brand_model p = template (read_prop p ''brand'') @ '' '' @ template (read_prop p ''model'')"

definition updatePageMeta :: "json list \<Rightarrow> comparison_page \<Rightarrow> comparison_page" where
  "updatePageMeta selectedPhones d =
     (if selectedPhones = [] then d
      else
        (let models = join '' vs '' (map brand_model selectedPhones) in
         d\<lparr>title_text :=
             (if title_text d \<noteq> None
              then Some (models @ '' '' @ en_dash @ '' Specs Comparison '' @ en_dash @ '' SpecLedger'')
              else None),
           meta_description :=
             (if meta_description d \<noteq> None
              then Some (''Compare '' @ models @
                '' side-by-side using official manufacturer specifications. SpecLedger provides specification-based product comparisons.'')
              else None),
           page_title := (if page_title d \<noteq> None then Some models else None)\<rparr>))"

subsection \<open>Structured data\<close>

text \<open>
  \<^verbatim>\<open>JSON.stringify\<close> leaves out a property whose value is \<^verbatim>\<open>undefined\<close>; \<open>field\<close> builds
  the properties of an object literal accordingly.
\<close>

definition field :: "string \<Rightarrow> json option \<Rightarrow> (string \<times> json) list" where
  "field k v = (case v of None \<Rightarrow> [] | Some w \<Rightarrow> [(k, w)])"

definition product :: "json \<Rightarrow> json" where
  "product phone =
     JObj ([(''@type'', JStr ''Product''),
            (''name'', JStr (brand_model phone)),
            (''brand'', JObj ((''@type'', JStr ''Brand'') # field ''name'' (read_prop phone ''brand'')))]
           @ field ''model'' (read_prop phone ''model'')
           @ [(''releaseDate'', JStr (template (read_prop phone ''release_year''))),
              (''specs'', JObj [(''@type'', JStr ''PropertyValue''),
                               (''name'', JStr ''Technical Specifications''),
                               (''description'', JStr ''Official manufacturer specifications'')])])"

definition comparisonSchema :: "string \<Rightarrow> json list \<Rightarrow> json" where
  "comparisonSchema url selectedPhones =
     JObj [(''@context'', JStr ''https://schema.org''),
           (''@type'', JStr ''Dataset''),
           (''name'', JStr (join '' vs '' (map brand_model selectedPhones))),
           (''description'', JStr (''Detailed specification comparison between '' @
              join '' and '' (map brand_model selectedPhones) @
              ''. All specifications sourced from official manufacturer documentation.'')),
           (''url'', JStr url),
           (''isBasedOn'', JStr ''Official manufacturer product specifications''),
           (''hasPart'', JArr (map product selectedPhones))]"

text \<open>
  \<^verbatim>\<open>document.querySelector('script[data-product-schema="true"]')\<close>: the first script of the
  document that carries the attribute with that value.
\<close>

definition existingProductSchema :: "comparison_page \<Rightarrow> script_tag option" where
  "existingProductSchema d =
     find (\<lambda>s. data_product_schema s = Some ''true'') (head_scripts d @ body_scripts d)"

text \<open>
  \<open>stringify\<close> stands for \<^verbatim>\<open>JSON.stringify\<close>. The script's first query, for a JSON-LD script
  without the attribute, only assigns a local variable that is never read, and nothing in
  the \<^verbatim>\<open>try\<close> block throws on these values.
\<close>

definition addStructuredData ::
  "(json \<Rightarrow> string) \<Rightarrow> json list \<Rightarrow> comparison_page \<Rightarrow> comparison_page" where
  "addStructuredData stringify selectedPhones d =
     (if selectedPhones = [] then d
      else
        (case existingProductSchema d of
           Some s \<Rightarrow> d
         | None \<Rightarrow>
             d\<lparr>head_scripts := head_scripts d @
               [\<lparr>script_type = ''application/ld+json'',
                 data_product_schema = Some ''true'',
                 script_text = stringify (comparisonSchema (href d) selectedPhones)\<rparr>]\<rparr>))"

subsection \<open>The comparison table\<close>

text \<open>
  \<open>allSpecs\<close> is the \<^verbatim>\<open>Set\<close> the script fills: \<open>set_add\<close> keeps the first insertion of a
  key, and \<open>set_has\<close> is \<^verbatim>\<open>allSpecs.has\<close>.
\<close>

definition set_add :: "string list \<Rightarrow> string \<Rightarrow> string list" where
  "set_add acc key = (if key \<in> set acc then acc else acc @ [key])"

definition set_has :: "string list \<Rightarrow> string \<Rightarrow> bool" where
  "set_has acc key = (key \<in> set acc)"

definition add_keys :: "json \<Rightarrow> string list \<Rightarrow> string list" where
  "add_keys phone acc =
     fold (\<lambda>key a. if key \<noteq> ''id'' \<and> key \<noteq> ''source_url'' then set_add a key else a)
       (object_keys phone) acc"

definition allSpecs :: "json list \<Rightarrow> string list" where
  "allSpecs selectedPhones = fold add_keys selectedPhones []"

definition specOrder :: "string list" where
  "specOrder =
     [''brand'', ''model'', ''release_year'',
      ''display'', ''chipset'', ''ram_gb'', ''storage_gb'',
      ''battery_mah'', ''camera'', ''os'']"

definition specLabels :: "(string \<times> string) list" where
  "specLabels =
     [(''brand'', ''Brand''),
      (''model'', ''Model''),
      (''release_year'', ''Release Year''),
      (''display'', ''Display''),
      (''chipset'', ''Chipset''),
      (''ram_gb'', ''RAM''),
      (''storage_gb'', ''Storage''),
      (''battery_mah'', ''Battery''),
      (''camera'', ''Camera''),
      (''os'', ''Operating System'')]"

text \<open>\<^verbatim>\<open>specLabels[spec] || spec\<close>.\<close>

definition spec_label :: "string \<Rightarrow> string" where
  "spec_label spec =
     (case map_of specLabels spec of
        None \<Rightarrow> spec
      | Some l \<Rightarrow> if l \<noteq> [] then l else spec)"

definition spec_row :: "json list \<Rightarrow> string \<Rightarrow> string" where
  \<open>spec_row selectedPhones spec =
     (let label = spec_label spec;
          cells = join [] (map (\<lambda>phone. ''<td>'' @ flattenValue (read_prop phone spec) @ ''</td>'')
                    selectedPhones)
      in ''<tr><th class="spec-label">'' @ label @ ''</th>'' @ cells @ ''</tr>'')\<close>

text \<open>
  \<^verbatim>\<open>specOrder.filter(spec => allSpecs.has(spec))\<close>, the fields that get a row, and the rows
  of the table body before they are joined, one markup string each.
\<close>

definition shown_specs :: "json list \<Rightarrow> string list" where
  "shown_specs selectedPhones = filter (set_has (allSpecs selectedPhones)) specOrder"

definition spec_rows :: "json list \<Rightarrow> string list" where
  "spec_rows selectedPhones = map (spec_row selectedPhones) (shown_specs selectedPhones)"

definition sourceRow :: "json list \<Rightarrow> string" where
  \<open>sourceRow selectedPhones =
     ''<tr><th class="spec-label">Source</th>'' @
     join [] (map (\<lambda>phone. ''<td><a href="'' @ template (read_prop phone ''source_url'') @
                     ''" target="_blank" rel="noopener">View Specs</a></td>'')
                selectedPhones) @
     ''</tr>''\<close>

definition header_markup :: "json list \<Rightarrow> string" where
  \<open>header_markup selectedPhones =
     ''<th class="spec-label">Specification</th>'' @
     join [] (map (\<lambda>phone. ''<th class="phone-header">'' @ template (read_prop phone ''brand'') @
                     ''<br><strong>'' @ template (read_prop phone ''model'') @ ''</strong></th>'')
                selectedPhones)\<close>

text \<open>The three placeholder rows and the two messages of the script.\<close>

definition select_placeholder :: string where
  \<open>select_placeholder =
     ''<tr><td class="spec-label">Select phones to compare using URL parameters (e.g., ?ids=google-pixel-10,google-pixel-10-pro)</td></tr>''\<close>

definition no_match_placeholder :: string where
  \<open>no_match_placeholder =
     ''<tr><td class="spec-label">No phones found with provided IDs.</td></tr>''\<close>

definition error_placeholder :: string where
  \<open>error_placeholder = ''<tr><td class="spec-label">Error loading data.</td></tr>''\<close>

definition no_valid_ids_message :: string where
  "no_valid_ids_message = ''No valid phone IDs found. Check the available phones list below.''"

definition load_error_message :: string where
  "load_error_message = ''Error loading comparison data. Please try again.''"

text \<open>
  The \<^verbatim>\<open>catch\<close> block of \<^verbatim>\<open>generateComparisonTable\<close>. Without an
  \<^verbatim>\<open>#error-message\<close> element its first assignment throws again, and nothing is written.
\<close>

definition on_error :: "comparison_page \<Rightarrow> comparison_page" where
  "on_error d =
     (case error_message d of
        None \<Rightarrow> d
      | Some m \<Rightarrow>
          d\<lparr>error_message := Some (m\<lparr>msg_text := load_error_message, msg_display := ''block''\<rparr>),
            table_body := Some error_placeholder\<rparr>)"

text \<open>
  The path of at least one resolved phone, up to the last statement of the \<^verbatim>\<open>try\<close> block.
  \<^verbatim>\<open>tableBody.innerHTML += sourceRow\<close> reads the markup back before it appends: \<open>serialize\<close>
  stands for what the browser returns for markup it was assigned, after parsing it.
\<close>

definition render_table ::
  "(string \<Rightarrow> string) \<Rightarrow> (json \<Rightarrow> string) \<Rightarrow> json list \<Rightarrow> comparison_page \<Rightarrow>
   comparison_page" where
  "render_table serialize stringify selectedPhones d =
     (let d1 = updatePageMeta selectedPhones d;
          d2 = addStructuredData stringify selectedPhones d1;
          d3 = d2\<lparr>header_row := Some (header_markup selectedPhones)\<rparr>;
          d4 = d3\<lparr>table_body := Some (concat (spec_rows selectedPhones))\<rparr>
      in d4\<lparr>table_body :=
            map_option (\<lambda>html. serialize html @ sourceRow selectedPhones) (table_body d4)\<rparr>)"

text \<open>
  \<^verbatim>\<open>generateComparisonTable\<close>, given what the fetch of the dataset did. A throw inside the
  \<^verbatim>\<open>try\<close> block keeps what was written before it and runs the \<^verbatim>\<open>catch\<close> block.
\<close>

definition generateComparisonTable ::
  "(string \<Rightarrow> string) \<Rightarrow> (json \<Rightarrow> string) \<Rightarrow> fetch_result \<Rightarrow> comparison_page \<Rightarrow>
   comparison_page" where
  "generateComparisonTable serialize stringify fetched d =
     (let selectedIds = getComparisonIds d in
      if header_row d = None \<or> table_body d = None then d
      else
        (let phones = fetchPhonesData fetched in
         if selectedIds = [] then d\<lparr>table_body := Some select_placeholder\<rparr>
         else
           (case resolve selectedIds phones of
              Inl e \<Rightarrow> on_error d
            | Inr selectedPhones \<Rightarrow>
                if selectedPhones = [] then
                  (case error_message d of
                     None \<Rightarrow> on_error d
                   | Some m \<Rightarrow>
                       d\<lparr>error_message :=
                           Some (m\<lparr>msg_text := no_valid_ids_message, msg_display := ''block''\<rparr>),
                         table_body := Some no_match_placeholder\<rparr>)
                else
                  (let d5 = render_table serialize stringify selectedPhones d in
                   case error_message d5 of
                     None \<Rightarrow> on_error d5
                   | Some m \<Rightarrow> d5\<lparr>error_message := Some (m\<lparr>msg_display := ''none''\<rparr>)\<rparr>))))"

section \<open>The index page and the phone page (the dependency-free script)\<close>

subsection \<open>Helpers\<close>

text \<open>\<^verbatim>\<open>fetchJSON\<close>: the value of the response, or the throw of a failed step.\<close>

definition fetchJSON :: "(string \<Rightarrow> fetch_result) \<Rightarrow> string \<Rightarrow> error + json" where
  "fetchJSON net url =
     (case net url of
        NetworkError \<Rightarrow> Inl TypeError
      | Response ok body \<Rightarrow>
          if \<not> ok then Inl (Error (''Fetch failed: '' @ url))
          else (case body of None \<Rightarrow> Inl SyntaxError | Some v \<Rightarrow> Inr v))"

text \<open>\<^verbatim>\<open>text(v)\<close> is \<^verbatim>\<open>(v ?? "").toString().toLowerCase()\<close>.\<close>

definition text_of :: "json option \<Rightarrow> string" where
  "text_of v =
     (case v of
        None \<Rightarrow> []
      | Some w \<Rightarrow> if w = JNull then [] else toLowerCase (js_String w))"

text \<open>
  \<^verbatim>\<open>formatDate\<close>. \<open>localDate\<close> stands for \<^verbatim>\<open>new Date(iso)\<close> and its
  \<^verbatim>\<open>toLocaleDateString\<close>, which depend on the locale: the text of the date, or \<open>None\<close> when
  the date is invalid, in which case \<^verbatim>\<open>formatDate\<close> returns its argument.
\<close>

definition formatDate :: "(json \<Rightarrow> string option) \<Rightarrow> json option \<Rightarrow> json" where
  "formatDate localDate date =
     (case date of
        None \<Rightarrow> JStr dash
      | Some v \<Rightarrow>
          if \<not> truthy v then JStr dash
          else (case localDate v of None \<Rightarrow> v | Some s \<Rightarrow> JStr s))"

text \<open>
  The nodes \<^verbatim>\<open>el\<close> builds. A child handed to \<^verbatim>\<open>el\<close> is a node or a value: a string
  becomes a text node, and \<^verbatim>\<open>appendChild\<close> throws on any other value. The call sites
  modelled here pass string attributes and never the \<^verbatim>\<open>html\<close> attribute.
\<close>

datatype node = TextNode string | Element string "(string \<times> string) list" "node list"

datatype child = ChildNode node | ChildValue "json option"

fun append_children :: "child list \<Rightarrow> error + node list" where
  "append_children [] = Inr []"
| "append_children (ChildNode n # cs) =
     (case append_children cs of Inl e \<Rightarrow> Inl e | Inr ns \<Rightarrow> Inr (n # ns))"
| "append_children (ChildValue (Some (JStr s)) # cs) =
     (case append_children cs of Inl e \<Rightarrow> Inl e | Inr ns \<Rightarrow> Inr (TextNode s # ns))"
| "append_children (ChildValue v # cs) = Inl TypeError"

definition el :: "string \<Rightarrow> (string \<times> string) list \<Rightarrow> child list \<Rightarrow> error + node" where
  "el tag attrs children =
     (case append_children children of
        Inl e \<Rightarrow> Inl e
      | Inr ns \<Rightarrow> Inr (Element tag attrs ns))"

text \<open>
  Sequencing of calls that may throw: an argument of \<^verbatim>\<open>el\<close> that is itself a call of
  \<^verbatim>\<open>el\<close> is evaluated before the outer call, left to right.
\<close>

definition and_then :: "error + 'a \<Rightarrow> ('a \<Rightarrow> error + 'b) \<Rightarrow> error + 'b" where
  "and_then r f = (case r of Inl e \<Rightarrow> Inl e | Inr x \<Rightarrow> f x)"

definition str :: "string \<Rightarrow> child" where
  "str s = ChildValue (Some (JStr s))"

text \<open>\<^verbatim>\<open>encodeURIComponent\<close> on the bytes of a string.\<close>

definition hex_digit :: "nat \<Rightarrow> char" where
  "hex_digit n = ''0123456789ABCDEF'' ! n"

definition unreserved :: "char \<Rightarrow> bool" where
  "unreserved c =
     (c \<in> set (''ABCDEFGHIJKLMNOPQRSTUVWXYZabcdefghijklmnopqrstuvwxyz0123456789'' @
                [CHR ''-'', CHR ''_'', CHR ''.'', CHR ''!'', CHR ''~'', CHR ''*'', CHR 0x27,
                 CHR ''('', CHR '')'']))"

definition encodeURIComponent :: "string \<Rightarrow> string" where
  "encodeURIComponent s =
     concat (map (\<lambda>c. if unreserved c then [c]
                       else [CHR ''%'', hex_digit (of_char c div 16), hex_digit (of_char c mod 16)]) s)"

subsection \<open>Loading the dataset\<close>

definition paths :: "string list" where
  "paths =
     [''/spec-ledger/data/phones.json'',
      ''/spec-ledger/data/phones.example.json'',
      ''/data/phones.json'',
      ''/data/phones.example.json'']"

text \<open>
  The loop of \<^verbatim>\<open>loadPhones\<close> over the candidates still to try. \<open>net\<close> says what the fetch of
  a URL does, and the first component of the result lists the URLs requested so far, in
  order.
\<close>

fun load_from ::
  "(string \<Rightarrow> fetch_result) \<Rightarrow> string list \<Rightarrow> string list \<Rightarrow> string list \<times> (error + json)" where
  "load_from net requested [] = (requested, Inl (Error ''No phone dataset found''))"
| "load_from net requested (p # ps) =
     (case fetchJSON net p of
        Inl e \<Rightarrow> load_from net (requested @ [p]) ps
      | Inr data \<Rightarrow>
          (case opt_prop (Some data) ''items'' of
             None \<Rightarrow> load_from net (requested @ [p]) ps
           | Some items \<Rightarrow>
               if truthy items then (requested @ [p], Inr items)
               else load_from net (requested @ [p]) ps))"

definition loadPhones :: "(string \<Rightarrow> fetch_result) \<Rightarrow> string list \<times> (error + json)" where
  "loadPhones net = load_from net [] paths"

subsection \<open>The filter of the index page\<close>

text \<open>
  \<^verbatim>\<open>matches(i)\<close>, for the values of the brand selector and of the query input. A property
  of \<open>i\<close> is read only where the script reaches the read.
\<close>

definition matches :: "string \<Rightarrow> string \<Rightarrow> json \<Rightarrow> error + bool" where
  "matches brand_value q_value i =
     (if brand_value \<noteq> [] \<and> i = JNull then Inl TypeError
      else if brand_value \<noteq> [] \<and> read_prop i ''brand'' \<noteq> Some (JStr brand_value) then Inr False
      else
        (let query = text_of (Some (JStr q_value)) in
         if query = [] then Inr True
         else if i = JNull then Inl TypeError
         else Inr (js_includes
                (text_of (Some (JStr (
                   template (read_prop i ''brand'') @ '' '' @
                   template (read_prop i ''model'') @ '' '' @
                   template (read_prop i ''id'') @ '' '' @
                   template (opt_prop (opt_prop (Some i) ''chipset'') ''name'')))))
                query)))"

text \<open>\<^verbatim>\<open>items.filter(matches)\<close>, stopping at the first throw.\<close>

fun filter_matches :: "string \<Rightarrow> string \<Rightarrow> json list \<Rightarrow> error + json list" where
  "filter_matches brand_value q_value [] = Inr []"
| "filter_matches brand_value q_value (i # items) =
     (case matches brand_value q_value i of
        Inl e \<Rightarrow> Inl e
      | Inr b \<Rightarrow>
          (case filter_matches brand_value q_value items of
             Inl e \<Rightarrow> Inl e
           | Inr rest \<Rightarrow> Inr (if b then i # rest else rest)))"

subsection \<open>Cards\<close>

text \<open>\<^verbatim>\<open>v ? `${v}suffix` : dash\<close>, the pattern of the display and battery lines.\<close>

definition value_or_dash :: "json option \<Rightarrow> string \<Rightarrow> string" where
  "value_or_dash v suffix =
     (case v of
        None \<Rightarrow> dash
      | Some w \<Rightarrow> if truthy w then js_String w @ suffix else dash)"

text \<open>\<^verbatim>\<open>v ?? dash\<close>.\<close>

definition or_dash :: "json option \<Rightarrow> json option" where
  "or_dash v =
     (case v of
        None \<Rightarrow> Some (JStr dash)
      | Some w \<Rightarrow> if w = JNull then Some (JStr dash) else Some w)"

text \<open>\<^verbatim>\<open>card(i)\<close>, named \<open>card_of\<close> here beside the cardinality of sets.\<close>

definition card_of :: "(json \<Rightarrow> string option) \<Rightarrow> json \<Rightarrow> error + node" where
  \<open>card_of localDate i =
     (if i = JNull then Inl TypeError
      else
        (let name = trim (template (read_prop i ''brand'') @ '' '' @ template (read_prop i ''model''));
             link = ''./phone.html?id='' @ encodeURIComponent (template (read_prop i ''id''));
             display = opt_prop (Some i) ''display'';
             chipset = opt_prop (Some i) ''chipset'';
             battery = opt_prop (Some i) ''battery''
         in
         and_then (el ''h2'' [] [str name]) (\<lambda>h2.
         and_then (el ''span'' [(''class'', ''badge'')] [ChildValue (read_prop i ''brand'')]) (\<lambda>badge.
         and_then (el ''div'' [(''class'', ''title'')] [ChildNode h2, ChildNode badge]) (\<lambda>title.
         and_then (el ''b'' [] [str ''Release: '']) (\<lambda>b1.
         and_then (el ''div'' []
                     [ChildNode b1,
                      ChildValue (Some (formatDate localDate (read_prop i ''release_date'')))]) (\<lambda>release.
         and_then (el ''b'' [] [str ''Display: '']) (\<lambda>b2.
         and_then (el ''div'' []
                     [ChildNode b2,
                      str (value_or_dash (opt_prop display ''size_in'') [CHR 0x22])]) (\<lambda>size.
         and_then (el ''b'' [] [str ''Chipset: '']) (\<lambda>b3.
         and_then (el ''div'' []
                     [ChildNode b3, ChildValue (or_dash (opt_prop chipset ''name''))]) (\<lambda>chip.
         and_then (el ''b'' [] [str ''Battery: '']) (\<lambda>b4.
         and_then (el ''div'' []
                     [ChildNode b4,
                      str (value_or_dash (opt_prop battery ''mah'') '' mAh'')]) (\<lambda>batt.
         and_then (el ''div'' [(''class'', ''kv'')]
                     [ChildNode release, ChildNode size, ChildNode chip, ChildNode batt]) (\<lambda>kv.
         el ''a'' [(''class'', ''card''), (''href'', link)]
            [ChildNode title, ChildNode kv]))))))))))))))\<close>

subsection \<open>Repainting the grid\<close>

text \<open>
  The four elements \<^verbatim>\<open>renderCompare\<close> looks up, on a page that has them: the values of
  the query input and of the brand selector, the text of the count label and the children
  of the grid.
\<close>

record index_page =
  q_value :: string
  brand_value :: string
  count_text :: string
  grid :: "node list"

text \<open>
  \<^verbatim>\<open>filtered.forEach(i => grid.appendChild(card(i)))\<close>: a throw of \<^verbatim>\<open>card\<close>
  leaves the cards appended before it.
\<close>

fun append_cards ::
  "(json \<Rightarrow> string option) \<Rightarrow> json list \<Rightarrow> node list \<Rightarrow> error option \<times> node list" where
  "append_cards localDate [] g = (None, g)"
| "append_cards localDate (i # items) g =
     (case card_of localDate i of
        Inl e \<Rightarrow> (Some e, g)
      | Inr c \<Rightarrow> append_cards localDate items (g @ [c]))"

text \<open>
  \<^verbatim>\<open>repaint\<close> on the items of the dataset: the page after it, and the throw that ended it,
  if any.
\<close>

definition repaint ::
  "(json \<Rightarrow> string option) \<Rightarrow> json list \<Rightarrow> index_page \<Rightarrow> error option \<times> index_page" where
  "repaint localDate items pg =
     (case filter_matches (brand_value pg) (q_value pg) items of
        Inl e \<Rightarrow> (Some e, pg)
      | Inr filtered \<Rightarrow>
          (let pg1 = pg\<lparr>count_text := show_int (int (length filtered)) @ '' phones''\<rparr>;
               pg2 = pg1\<lparr>grid := []\<rparr>;
               (thrown, g) = append_cards localDate filtered (grid pg2)
           in (thrown, pg2\<lparr>grid := g\<rparr>)))"

subsection \<open>The phone page and the boot handler\<close>

text \<open>
  \<^verbatim>\<open>items.find(i => i.id === id)\<close> of the phone page, where \<open>id\<close> is the \<^verbatim>\<open>id\<close> parameter
  of the URL, \<^verbatim>\<open>null\<close> when the URL has none.
\<close>

fun find_item :: "string option \<Rightarrow> json list \<Rightarrow> error + json option" where
  "find_item ident [] = Inr None"
| "find_item ident (i # items) =
     (case get_prop i ''id'' of
        Inl e \<Rightarrow> Inl e
      | Inr v \<Rightarrow>
          if v = Some (case ident of None \<Rightarrow> JNull | Some s \<Rightarrow> JStr s) then Inr (Some i)
          else find_item ident items)"

text \<open>
  The page as far as the handler's own statements go: the \<^verbatim>\<open>#load-error\<close> element, with its
  \<^verbatim>\<open>hidden\<close> flag and its text, \<open>None\<close> when the page has no such element.
\<close>

record error_box =
  box_hidden :: bool
  box_text :: string

record boot_page =
  load_error :: "error_box option"

text \<open>The \<^verbatim>\<open>catch\<close> block of the handler.\<close>

definition show_load_error :: "'a boot_page_scheme \<Rightarrow> 'a boot_page_scheme" where
  "show_load_error pg =
     (case load_error pg of
        None \<Rightarrow> pg
      | Some err \<Rightarrow>
          pg\<lparr>load_error :=
            Some (err\<lparr>box_hidden := False,
                      box_text := ''Failed to load data. Ensure data/phones.json exists.''\<rparr>)\<rparr>)"

text \<open>
  The \<^verbatim>\<open>DOMContentLoaded\<close> handler. \<open>render\<close> stands for the statements between the load
  and the \<^verbatim>\<open>catch\<close>, which dispatch on the kind of page: the page they leave and the throw
  that ended them, if any.
\<close>

definition boot ::
  "(string \<Rightarrow> fetch_result) \<Rightarrow> (json \<Rightarrow> 'a boot_page_scheme \<Rightarrow> error option \<times> 'a boot_page_scheme) \<Rightarrow>
   'a boot_page_scheme \<Rightarrow> 'a boot_page_scheme" where
  "boot net render pg =
     (case snd (loadPhones net) of
        Inl e \<Rightarrow> show_load_error pg
      | Inr items \<Rightarrow>
          (case render items pg of
             (None, pg1) \<Rightarrow> pg1
           | (Some e, pg1) \<Rightarrow> show_load_error pg1))"

section \<open>Notions used in the statements\<close>

text \<open>A record carries the identifier \<open>ident\<close>: its \<^verbatim>\<open>id\<close> is that string.\<close>

definition has_id :: "string \<Rightarrow> json \<Rightarrow> bool" where
  "has_id ident p = (read_prop p ''id'' = Some (JStr ident))"

text \<open>The string identifiers of a dataset, in dataset order, and their uniqueness.\<close>

fun string_id :: "json \<Rightarrow> string option" where
  "string_id p = (case read_prop p ''id'' of Some (JStr s) \<Rightarrow> Some s | _ \<Rightarrow> None)"

definition unique_ids :: "json list \<Rightarrow> bool" where
  "unique_ids ps = distinct (List.map_filter string_id ps)"

text \<open>
  What a candidate URL contributes to \<^verbatim>\<open>loadPhones\<close>: the truthy \<^verbatim>\<open>items\<close> of its
  response, if the fetch succeeds and the response has one.
\<close>

definition accepted :: "(string \<Rightarrow> fetch_result) \<Rightarrow> string \<Rightarrow> json option" where
  "accepted net p =
     (case fetchJSON net p of
        Inl e \<Rightarrow> None
      | Inr data \<Rightarrow>
          (case opt_prop (Some data) ''items'' of
             None \<Rightarrow> None
           | Some items \<Rightarrow> if truthy items then Some items else None))"

text \<open>
  A static site as the loader sees it: the URLs of the table are served as listed, and any
  other URL gets a response that is not ok. A page of neither kind renders nothing after
  the load. \<open>same_markup\<close> is the reading of markup that the browser returns as it was
  assigned, which holds for rows whose labels and values are free of markup characters.
\<close>

definition serve :: "(string \<times> fetch_result) list \<Rightarrow> string \<Rightarrow> fetch_result" where
  "serve table url = (case map_of table url of None \<Rightarrow> Response False None | Some r \<Rightarrow> r)"

definition same_markup :: "string \<Rightarrow> string" where
  "same_markup html = html"

definition no_render :: "json \<Rightarrow> 'a boot_page_scheme \<Rightarrow> error option \<times> 'a boot_page_scheme" where
  "no_render items pg = (None, pg)"

section \<open>The resolver returns first matches in request order\<close>

lemma find_phone_eq:
  "JNull \<notin> set ps \<Longrightarrow> find_phone i ps = Inr (find (has_id i) ps)"
  by (induction ps) (auto simp: get_prop_def has_id_def)

lemma find_all_eq:
  "JNull \<notin> set ps \<Longrightarrow> find_all L ps = Inr (map (\<lambda>i. find (has_id i) ps) L)"
  by (induction L) (auto simp: find_phone_eq)

lemma resolve_eq:
  "JNull \<notin> set ps \<Longrightarrow>
   resolve L (JArr ps) = Inr (List.map_filter (\<lambda>i. find (has_id i) ps) L)"
proof -
  have "List.map_filter (\<lambda>r. r) (map f L) = List.map_filter f L" for f :: "string \<Rightarrow> json option"
    by (induction L) (auto split: option.splits)
  then show "JNull \<notin> set ps \<Longrightarrow> ?thesis"
    by (simp add: resolve_def find_all_eq)
qed


lemma first_matches:
  "list_all2 (\<lambda>r i. r \<in> set ps \<and> has_id i r)
     (List.map_filter (\<lambda>i. find (has_id i) ps) L)
     (filter (\<lambda>i. \<exists>p\<in>set ps. has_id i p) L)"
proof (induction L)
  case Nil
  show ?case by simp
next
  case (Cons i L)
  show ?case
  proof (cases "find (has_id i) ps")
    case None
    then have "\<not> (\<exists>p\<in>set ps. has_id i p)" by (simp add: find_None_iff)
    with None Cons show ?thesis by simp
  next
    case (Some r)
    then have "r \<in> set ps" "has_id i r"
      by (auto simp: find_Some_iff)
    with Some Cons show ?thesis by auto
  qed
qed

lemma unique_filter:
  "unique_ids ps \<Longrightarrow>
   filter (has_id i) ps = (case find (has_id i) ps of None \<Rightarrow> [] | Some p \<Rightarrow> [p])"
proof (induction ps)
  case Nil
  show ?case by simp
next
  case (Cons p ps)
  have u: "unique_ids ps" using Cons.prems
    by (auto simp: unique_ids_def split: option.splits json.splits)
  show ?case
  proof (cases "has_id i p")
    case True
    then have "string_id p = Some i" by (simp add: has_id_def)
    with Cons.prems have "i \<notin> set (List.map_filter string_id ps)"
      by (simp add: unique_ids_def)
    then have "\<forall>q\<in>set ps. \<not> has_id i q"
      by (auto simp: has_id_def List.map_filter_def image_iff split: option.splits json.splits)
    then have "filter (has_id i) ps = []" by (simp add: filter_empty_conv)
    with True show ?thesis by simp
  next
    case False
    with Cons.IH [OF u] show ?thesis by simp
  qed
qed


text \<open>
  Claim C1. For a dataset without \<^verbatim>\<open>null\<close> entries the resolver returns, for the requested
  identifiers in their order, one record of the dataset carrying that identifier each, and
  leaves out the identifiers that no record carries; the order is that of the request, not
  that of the dataset. Where identifiers are unique in the dataset, as the data model
  assumes, the result is exactly the records of the dataset whose identifier is requested,
  in request order.
\<close>

theorem resolve_requested_order:
  assumes "JNull \<notin> set ps"
  shows "\<exists>sel. resolve L (JArr ps) = Inr sel \<and>
           list_all2 (\<lambda>r i. r \<in> set ps \<and> has_id i r) sel
             (filter (\<lambda>i. \<exists>p\<in>set ps. has_id i p) L) \<and>
           (unique_ids ps \<longrightarrow> sel = concat (map (\<lambda>i. filter (has_id i) ps) L))"
proof -
  let ?sel = "List.map_filter (\<lambda>i. find (has_id i) ps) L"
  have "unique_ids ps \<Longrightarrow> ?sel = concat (map (\<lambda>i. filter (has_id i) ps) L)"
    by (induction L) (auto simp: unique_filter split: option.splits)
  with resolve_eq [OF assms, of L] first_matches [of ps L] show ?thesis
    by blast
qed

theorem resolve_requested_order_witness:
  "JNull \<notin> set [JObj [(''id'', JStr ''a''), (''brand'', JStr ''Acme'')],
                   JObj [(''id'', JStr ''b''), (''brand'', JStr ''Bolt'')]] \<and>
   unique_ids [JObj [(''id'', JStr ''a''), (''brand'', JStr ''Acme'')],
               JObj [(''id'', JStr ''b''), (''brand'', JStr ''Bolt'')]] \<and>
   resolve [''b'', ''x'', ''a'']
     (JArr [JObj [(''id'', JStr ''a''), (''brand'', JStr ''Acme'')],
            JObj [(''id'', JStr ''b''), (''brand'', JStr ''Bolt'')]]) =
   Inr [JObj [(''id'', JStr ''b''), (''brand'', JStr ''Bolt'')],
        JObj [(''id'', JStr ''a''), (''brand'', JStr ''Acme'')]]"
proof -
  define ps where "ps = [JObj [(''id'', JStr ''a''), (''brand'', JStr ''Acme'')],
                         JObj [(''id'', JStr ''b''), (''brand'', JStr ''Bolt'')]]"
  define L where "L = [''b'', ''x'', ''a'']"
  have h: "JNull \<notin> set ps" by (simp add: ps_def)
  have u: "unique_ids ps" by (simp add: ps_def unique_ids_def)
  from resolve_requested_order [OF h, of L]
  obtain sel where s: "resolve L (JArr ps) = Inr sel"
    and c: "unique_ids ps \<longrightarrow> sel = concat (map (\<lambda>i. filter (has_id i) ps) L)"
    by blast
  from c u have "sel = concat (map (\<lambda>i. filter (has_id i) ps) L)" by blast
  also have "\<dots> = [JObj [(''id'', JStr ''b''), (''brand'', JStr ''Bolt'')],
                     JObj [(''id'', JStr ''a''), (''brand'', JStr ''Acme'')]]"
    by (simp add: ps_def L_def has_id_def)
  finally have r: "resolve L (JArr ps) =
      Inr [JObj [(''id'', JStr ''b''), (''brand'', JStr ''Bolt'')],
           JObj [(''id'', JStr ''a''), (''brand'', JStr ''Acme'')]]"
    using s by simp
  from h u r show ?thesis unfolding ps_def L_def by (intro conjI)
qed

lemma find_item_eq:
  "JNull \<notin> set ps \<Longrightarrow> find_item (Some i) ps = Inr (find (has_id i) ps)"
  by (induction ps) (auto simp: get_prop_def has_id_def)

lemma count_resolved:
  assumes "find (has_id i) ps = Some r"
  shows "count_list (List.map_filter (\<lambda>j. find (has_id j) ps) L) r = count_list L i"
proof -
  have r: "has_id i r" using assms by (auto simp: find_Some_iff)
  have other: "find (has_id j) ps \<noteq> Some r" if "j \<noteq> i" for j
  proof
    assume "find (has_id j) ps = Some r"
    then have "has_id j r" by (auto simp: find_Some_iff)
    with r that show False by (simp add: has_id_def)
  qed
  show ?thesis
  proof (induction L)
    case Nil
    show ?case by simp
  next
    case (Cons j L)
    show ?case
    proof (cases "j = i")
      case True
      with assms Cons show ?thesis by simp
    next
      case False
      from other [OF False] Cons False show ?thesis
        by (cases "find (has_id j) ps") simp_all
    qed
  qed
qed

lemma resolved_is_earliest:
  assumes "r \<in> set (List.map_filter (\<lambda>j. find (has_id j) ps) L)"
  shows "\<exists>k<length ps. ps ! k = r \<and> (\<forall>j<k. read_prop (ps ! j) ''id'' \<noteq> read_prop r ''id'')"
proof -
  from assms obtain i where "find (has_id i) ps = Some r"
    by (auto simp: List.map_filter_def)
  then obtain k where k: "k < length ps" "has_id i (ps ! k)" "r = ps ! k"
      "\<forall>j<k. \<not> has_id i (ps ! j)"
    by (auto simp: find_Some_iff)
  then have "\<forall>j<k. read_prop (ps ! j) ''id'' \<noteq> read_prop r ''id''"
    by (simp add: has_id_def)
  with k show ?thesis by blast
qed

text \<open>
  Claim C10. Each requested identifier is resolved on its own by the first match in dataset
  order: the record found for an identifier occurs in the result as often as the identifier
  occurs in the request, every resolved record is the earliest record of the dataset with
  its identifier, and the lookup of the phone page finds the same earliest record.
\<close>

theorem resolve_duplicates_first_match:
  assumes "JNull \<notin> set ps"
  shows "\<exists>sel. resolve L (JArr ps) = Inr sel \<and>
           (\<forall>i r. find (has_id i) ps = Some r \<longrightarrow> count_list sel r = count_list L i) \<and>
           (\<forall>r\<in>set sel. \<exists>k<length ps. ps ! k = r \<and>
              (\<forall>j<k. read_prop (ps ! j) ''id'' \<noteq> read_prop r ''id'')) \<and>
           (\<forall>i. find_item (Some i) ps = Inr (find (has_id i) ps))"
proof -
  let ?sel = "List.map_filter (\<lambda>i. find (has_id i) ps) L"
  have 1: "resolve L (JArr ps) = Inr ?sel" by (rule resolve_eq [OF assms])
  have 2: "\<forall>i r. find (has_id i) ps = Some r \<longrightarrow> count_list ?sel r = count_list L i"
    by (simp add: count_resolved)
  have 3: "\<forall>r\<in>set ?sel. \<exists>k<length ps. ps ! k = r \<and>
              (\<forall>j<k. read_prop (ps ! j) ''id'' \<noteq> read_prop r ''id'')"
    using resolved_is_earliest [of _ ps L] by simp
  have 4: "\<forall>i. find_item (Some i) ps = Inr (find (has_id i) ps)"
    by (simp add: find_item_eq [OF assms])
  from 1 2 3 4 show ?thesis by (intro exI [of _ ?sel] conjI)
qed


theorem resolve_duplicates_first_match_witness:
  "JNull \<notin> set [JObj [(''id'', JStr ''a''), (''brand'', JStr ''Acme'')],
                   JObj [(''id'', JStr ''a''), (''brand'', JStr ''Bolt'')]] \<and>
   resolve [''a'', ''a'']
     (JArr [JObj [(''id'', JStr ''a''), (''brand'', JStr ''Acme'')],
            JObj [(''id'', JStr ''a''), (''brand'', JStr ''Bolt'')]]) =
   Inr [JObj [(''id'', JStr ''a''), (''brand'', JStr ''Acme'')],
        JObj [(''id'', JStr ''a''), (''brand'', JStr ''Acme'')]] \<and>
   count_list [JObj [(''id'', JStr ''a''), (''brand'', JStr ''Acme'')],
               JObj [(''id'', JStr ''a''), (''brand'', JStr ''Acme'')]]
     (JObj [(''id'', JStr ''a''), (''brand'', JStr ''Acme'')]) = count_list [''a'', ''a''] ''a''"
proof -
  define r where "r = JObj [(''id'', JStr ''a''), (''brand'', JStr ''Acme'')]"
  define ps where "ps = [r, JObj [(''id'', JStr ''a''), (''brand'', JStr ''Bolt'')]]"
  define L where "L = [''a'', ''a'']"
  have h: "JNull \<notin> set ps" by (simp add: ps_def r_def)
  have f: "find (has_id ''a'') ps = Some r" by (simp add: ps_def r_def has_id_def)
  from resolve_duplicates_first_match [OF h, of L]
  obtain sel where s: "resolve L (JArr ps) = Inr sel"
    and c: "\<forall>i r. find (has_id i) ps = Some r \<longrightarrow> count_list sel r = count_list L i"
    by blast
  have "resolve L (JArr ps) = Inr [r, r]"
    by (simp add: resolve_def get_prop_def ps_def r_def L_def)
  with s have e: "sel = [r, r]" by simp
  from c f have "count_list sel r = count_list L ''a''" by blast
  with e have n: "count_list [r, r] r = count_list L ''a''" by simp
  from h s e n show ?thesis unfolding ps_def L_def r_def by simp
qed

section \<open>The comparison table and its page\<close>

subsection \<open>The fields that get a row\<close>

lemma set_fold_keys:
  "set (fold (\<lambda>key a. if key \<noteq> ''id'' \<and> key \<noteq> ''source_url'' then set_add a key else a) ks acc) =
   set acc \<union> (set ks - {''id'', ''source_url''})"
  by (induction ks arbitrary: acc) (auto simp: set_add_def)

lemma set_add_keys:
  "set (add_keys phone acc) = set acc \<union> (set (object_keys phone) - {''id'', ''source_url''})"
  unfolding add_keys_def by (rule set_fold_keys)

lemma set_fold_add_keys:
  "set (fold add_keys ps acc) =
   set acc \<union> ((\<Union>p\<in>set ps. set (object_keys p)) - {''id'', ''source_url''})"
  by (induction ps arbitrary: acc) (auto simp: set_add_keys)

lemma set_allSpecs:
  "set (allSpecs ps) = (\<Union>p\<in>set ps. set (object_keys p)) - {''id'', ''source_url''}"
  by (simp add: allSpecs_def set_fold_add_keys)

lemma distinct_specOrder: "distinct specOrder"
  by (simp add: specOrder_def)

lemma table_body_render_table:
  "table_body (render_table serialize stringify ps d) = Some (serialize (concat (spec_rows ps)) @ sourceRow ps)"
  by (simp add: render_table_def Let_def)

lemma join_Nil: "join [] xs = concat xs"
  by (induction "[] :: string" xs rule: join.induct) simp_all

lemma spec_labels_in_order:
  "map spec_label specOrder =
     [''Brand'', ''Model'', ''Release Year'', ''Display'', ''Chipset'', ''RAM'', ''Storage'',
      ''Battery'', ''Camera'', ''Operating System'']"
  by (simp add: specOrder_def spec_label_def specLabels_def)

lemma spec_row_markup:
  \<open>spec_row ps s =
     ''<tr><th class="spec-label">'' @ spec_label s @ ''</th>'' @
     concat (map (\<lambda>p. ''<td>'' @ flattenValue (read_prop p s) @ ''</td>'') ps) @ ''</tr>''\<close>
  by (simp add: spec_row_def Let_def join_Nil)

lemma sourceRow_markup:
  \<open>sourceRow ps =
     ''<tr><th class="spec-label">Source</th>'' @
     concat (map (\<lambda>p. ''<td><a href="'' @ template (read_prop p ''source_url'') @
                     ''" target="_blank" rel="noopener">View Specs</a></td>'') ps) @
     ''</tr>''\<close>
  by (simp add: sourceRow_def join_Nil)

lemma labels_plain: "s \<in> set specOrder \<Longrightarrow> CHR ''<'' \<notin> set (spec_label s)"
proof -
  have "\<forall>l\<in>set (map spec_label specOrder). CHR ''<'' \<notin> set l"
    unfolding spec_labels_in_order by simp
  then show "s \<in> set specOrder \<Longrightarrow> ?thesis" by simp
qed

lemma labels_distinct: "distinct (map spec_label specOrder)"
  unfolding spec_labels_in_order by simp

lemma label_read_back:
  "CHR ''<'' \<notin> set l \<Longrightarrow> takeWhile (\<lambda>c. c \<noteq> CHR ''<'') (l @ ''</th>'' @ x) = l"
  by (induction l) auto

lemma label_decides:
  assumes "s \<in> set specOrder" and "t \<in> set specOrder"
    and "spec_label s @ ''</th>'' @ x = spec_label t @ ''</th>'' @ y"
  shows "s = t"
proof -
  from assms(3) have "takeWhile (\<lambda>c. c \<noteq> CHR ''<'') (spec_label s @ ''</th>'' @ x) =
      takeWhile (\<lambda>c. c \<noteq> CHR ''<'') (spec_label t @ ''</th>'' @ y)"
    by simp
  then have "spec_label s = spec_label t"
    by (simp only: label_read_back [OF labels_plain [OF assms(1)]]
          label_read_back [OF labels_plain [OF assms(2)]])
  with labels_distinct assms(1,2) show ?thesis
    by (auto simp: distinct_map dest: inj_onD)
qed

lemma spec_row_inj: "inj_on (spec_row ps) (set specOrder)"
proof (rule inj_onI)
  fix s t
  assume s: "s \<in> set specOrder" and t: "t \<in> set specOrder"
    and e: "spec_row ps s = spec_row ps t"
  from e have "spec_label s @ ''</th>'' @
      (concat (map (\<lambda>p. ''<td>'' @ flattenValue (read_prop p s) @ ''</td>'') ps) @ ''</tr>'') =
    spec_label t @ ''</th>'' @
      (concat (map (\<lambda>p. ''<td>'' @ flattenValue (read_prop p t) @ ''</td>'') ps) @ ''</tr>'')"
    unfolding spec_row_markup by simp
  from label_decides [OF s t this] show "s = t" .
qed

lemma distinct_spec_rows: "distinct (spec_rows ps)"
proof -
  have "distinct (shown_specs ps)"
    unfolding shown_specs_def by (rule distinct_filter [OF distinct_specOrder])
  moreover have "inj_on (spec_row ps) (set (shown_specs ps))"
    by (rule inj_on_subset [OF spec_row_inj]) (auto simp: shown_specs_def)
  ultimately show ?thesis by (simp add: spec_rows_def distinct_map)
qed


text \<open>
  Claim C6 says that the table holds exactly the rows of the displayable fields. The script
  appends one more row: for a record with a brand and a source link, the body assigned to
  the table is the row of the brand followed by a row labelled Source, built from the
  \<^verbatim>\<open>source_url\<close> that the set of fields excludes.
\<close>

theorem table_source_row_counterexample:
  \<open>shown_specs [JObj [(''id'', JStr ''a''), (''brand'', JStr ''Acme''),
                      (''source_url'', JStr ''https://acme.example/x1'')]] = [''brand''] \<and>
   same_markup (concat (spec_rows [JObj [(''id'', JStr ''a''), (''brand'', JStr ''Acme''),
                      (''source_url'', JStr ''https://acme.example/x1'')]])) @
   sourceRow [JObj [(''id'', JStr ''a''), (''brand'', JStr ''Acme''),
                    (''source_url'', JStr ''https://acme.example/x1'')]] =
   ''<tr><th class="spec-label">Brand</th><td>Acme</td></tr>'' @
   ''<tr><th class="spec-label">Source</th><td><a href="https://acme.example/x1" target="_blank" rel="noopener">View Specs</a></td></tr>''\<close>
  by (simp add: spec_rows_def shown_specs_def set_has_def allSpecs_def add_keys_def set_add_def
        specOrder_def spec_row_def spec_label_def specLabels_def sourceRow_def same_markup_def
        template_def)

text \<open>
  Claim C6, amended. The fields the projector collects are the union of the records' own
  keys without \<^verbatim>\<open>id\<close> and \<^verbatim>\<open>source_url\<close>. The script builds one row for each of them that
  occurs in the canonical order, in that order and once: the rows are pairwise distinct
  markup, each made of a header cell with the label of its field and one cell per record
  with the flattened value of the field. A field outside the canonical order gets no row.
  The body of the table is these rows, read back from the table, followed by one further
  row labelled Source that links the \<^verbatim>\<open>source_url\<close> of each record.
\<close>

theorem projector_rows_in_canonical_order:
  \<open>set (allSpecs ps) = (\<Union>p\<in>set ps. set (object_keys p)) - {''id'', ''source_url''} \<and>
   shown_specs ps = filter (\<lambda>s. s \<in> set (allSpecs ps)) specOrder \<and>
   distinct (shown_specs ps) \<and>
   (\<forall>k. k \<notin> set specOrder \<longrightarrow> k \<notin> set (shown_specs ps)) \<and>
   spec_rows ps = map (spec_row ps) (shown_specs ps) \<and>
   length (spec_rows ps) = card (set (allSpecs ps) \<inter> set specOrder) \<and>
   distinct (spec_rows ps) \<and>
   (\<forall>s. spec_row ps s =
      ''<tr><th class="spec-label">'' @ spec_label s @ ''</th>'' @
      concat (map (\<lambda>p. ''<td>'' @ flattenValue (read_prop p s) @ ''</td>'') ps) @ ''</tr>'') \<and>
   map spec_label specOrder =
     [''Brand'', ''Model'', ''Release Year'', ''Display'', ''Chipset'', ''RAM'', ''Storage'',
      ''Battery'', ''Camera'', ''Operating System''] \<and>
   sourceRow ps =
     ''<tr><th class="spec-label">Source</th>'' @
     concat (map (\<lambda>p. ''<td><a href="'' @ template (read_prop p ''source_url'') @
                     ''" target="_blank" rel="noopener">View Specs</a></td>'') ps) @
     ''</tr>'' \<and>
   table_body (render_table serialize stringify ps d) =
     Some (serialize (concat (spec_rows ps)) @ sourceRow ps)\<close>
proof -
  have sh: "shown_specs ps = filter (\<lambda>s. s \<in> set (allSpecs ps)) specOrder"
    by (simp add: shown_specs_def set_has_def [abs_def])
  have di: "distinct (shown_specs ps)"
    unfolding sh by (rule distinct_filter [OF distinct_specOrder])
  have "set (shown_specs ps) = set (allSpecs ps) \<inter> set specOrder"
    unfolding sh by auto
  with di have "length (shown_specs ps) = card (set (allSpecs ps) \<inter> set specOrder)"
    by (metis distinct_card)
  then have le: "length (spec_rows ps) = card (set (allSpecs ps) \<inter> set specOrder)"
    by (simp add: spec_rows_def)
  have no: "\<forall>k. k \<notin> set specOrder \<longrightarrow> k \<notin> set (shown_specs ps)"
    unfolding sh by simp
  have ro: "spec_rows ps = map (spec_row ps) (shown_specs ps)"
    by (simp add: spec_rows_def)
  have rm: \<open>\<forall>s. spec_row ps s =
      ''<tr><th class="spec-label">'' @ spec_label s @ ''</th>'' @
      concat (map (\<lambda>p. ''<td>'' @ flattenValue (read_prop p s) @ ''</td>'') ps) @ ''</tr>''\<close>
    using spec_row_markup [of ps] by blast
  note facts = set_allSpecs [of ps] sh di no ro le distinct_spec_rows [of ps]
    rm spec_labels_in_order sourceRow_markup [of ps]
    table_body_render_table [of serialize stringify ps d]
  show ?thesis
    by (intro conjI) (rule facts)+
qed


theorem projector_rows_in_canonical_order_witness:
  \<open>''colour'' \<notin> set specOrder \<and>
   ''colour'' \<notin> set (shown_specs
      [JObj [(''id'', JStr ''a''), (''os'', JObj [(''name'', JStr ''Android''), (''skin'', JNull)]),
             (''colour'', JStr ''red'')],
       JObj [(''id'', JStr ''b''), (''brand'', JStr ''Bolt''), (''source_url'', JStr ''u'')]]) \<and>
   shown_specs
      [JObj [(''id'', JStr ''a''), (''os'', JObj [(''name'', JStr ''Android''), (''skin'', JNull)]),
             (''colour'', JStr ''red'')],
       JObj [(''id'', JStr ''b''), (''brand'', JStr ''Bolt''), (''source_url'', JStr ''u'')]] =
     [''brand'', ''os''] \<and>
   spec_rows
      [JObj [(''id'', JStr ''a''), (''os'', JObj [(''name'', JStr ''Android''), (''skin'', JNull)]),
             (''colour'', JStr ''red'')],
       JObj [(''id'', JStr ''b''), (''brand'', JStr ''Bolt''), (''source_url'', JStr ''u'')]] =
     [''<tr><th class="spec-label">Brand</th><td>'' @ dash @ ''</td><td>Bolt</td></tr>'',
      ''<tr><th class="spec-label">Operating System</th><td>Android</td><td>'' @ dash @
        ''</td></tr>'']\<close>
proof -
  define ps where "ps =
      [JObj [(''id'', JStr ''a''), (''os'', JObj [(''name'', JStr ''Android''), (''skin'', JNull)]),
             (''colour'', JStr ''red'')],
       JObj [(''id'', JStr ''b''), (''brand'', JStr ''Bolt''), (''source_url'', JStr ''u'')]]"
  note T = projector_rows_in_canonical_order [of ps]
  have c: "''colour'' \<notin> set specOrder" by (simp add: specOrder_def)
  from T have "\<forall>k. k \<notin> set specOrder \<longrightarrow> k \<notin> set (shown_specs ps)" by simp
  with c have n: "''colour'' \<notin> set (shown_specs ps)" by blast
  from T have "set (allSpecs ps) = (\<Union>p\<in>set ps. set (object_keys p)) - {''id'', ''source_url''}"
    and "shown_specs ps = filter (\<lambda>s. s \<in> set (allSpecs ps)) specOrder"
    by simp_all
  then have "shown_specs ps =
      filter (\<lambda>s. s \<in> (\<Union>p\<in>set ps. set (object_keys p)) - {''id'', ''source_url''}) specOrder"
    by simp
  also have "\<dots> = [''brand'', ''os'']"
    by (simp add: ps_def specOrder_def)
  finally have e: "shown_specs ps = [''brand'', ''os'']" .
  from T have "map spec_label specOrder =
     [''Brand'', ''Model'', ''Release Year'', ''Display'', ''Chipset'', ''RAM'', ''Storage'',
      ''Battery'', ''Camera'', ''Operating System'']"
    by simp
  then have l: "spec_label ''brand'' = ''Brand''" "spec_label ''os'' = ''Operating System''"
    by (simp_all add: specOrder_def)
  from T have ro: "spec_rows ps = map (spec_row ps) (shown_specs ps)" by simp
  from T have rm: \<open>\<forall>s. spec_row ps s =
      ''<tr><th class="spec-label">'' @ spec_label s @ ''</th>'' @
      concat (map (\<lambda>p. ''<td>'' @ flattenValue (read_prop p s) @ ''</td>'') ps) @ ''</tr>''\<close>
    by simp
  have r: \<open>spec_rows ps =
     [''<tr><th class="spec-label">Brand</th><td>'' @ dash @ ''</td><td>Bolt</td></tr>'',
      ''<tr><th class="spec-label">Operating System</th><td>Android</td><td>'' @ dash @
        ''</td></tr>'']\<close>
    unfolding ro e by (simp add: rm l) (simp add: ps_def)
  from c n e r show ?thesis unfolding ps_def by (intro conjI)
qed

subsection \<open>Flattened values\<close>

text \<open>
  Claim C7 says that empty and \<^verbatim>\<open>null\<close> leaves of a nested object render as the dash glyph.
  They are dropped before the join instead: an object with a \<^verbatim>\<open>null\<close> leaf and an empty
  leaf flattens to its one remaining leaf, with no dash.
\<close>

theorem flattenValue_null_leaf_counterexample:
  "flattenValue (Some (JObj [(''type'', JStr ''OLED''), (''size_in'', JNull),
      (''resolution'', JStr [])])) = ''OLED''"
  by simp

text \<open>
  Claim C7, amended. \<^verbatim>\<open>flattenValue\<close> returns the dash glyph for \<^verbatim>\<open>null\<close> and
  \<^verbatim>\<open>undefined\<close>; for an object or an array it joins the string forms of the truthy values
  with \<^verbatim>\<open> / \<close>, so that falsy leaves leave no trace and an object without a truthy leaf
  gives the empty string; a string, a number and a boolean give their string form, a string
  itself. The falsy values are \<^verbatim>\<open>null\<close>, \<^verbatim>\<open>false\<close>, zero and the empty string.
\<close>

theorem flattenValue_cases:
  "flattenValue None = dash \<and>
   flattenValue (Some JNull) = dash \<and>
   flattenValue (Some (JObj kvs)) = join '' / '' (map js_String (filter truthy (map snd kvs))) \<and>
   flattenValue (Some (JArr vs)) = join '' / '' (map js_String (filter truthy vs)) \<and>
   flattenValue (Some (JObj kvs)) = flattenValue (Some (JObj (filter (\<lambda>kv. truthy (snd kv)) kvs))) \<and>
   ((\<forall>kv\<in>set kvs. \<not> truthy (snd kv)) \<longrightarrow> flattenValue (Some (JObj kvs)) = []) \<and>
   flattenValue (Some (JStr s)) = s \<and>
   flattenValue (Some (JNum n)) = js_String (JNum n) \<and>
   flattenValue (Some (JBool b)) = js_String (JBool b) \<and>
   (truthy v \<longleftrightarrow> v \<noteq> JNull \<and> v \<noteq> JBool False \<and> v \<noteq> JNum 0 \<and> v \<noteq> JStr [])"
proof -
  have t: "truthy v \<longleftrightarrow> v \<noteq> JNull \<and> v \<noteq> JBool False \<and> v \<noteq> JNum 0 \<and> v \<noteq> JStr []"
    by (cases v) auto
  have f: "filter truthy (map snd (filter (\<lambda>kv. truthy (snd kv)) kvs)) = filter truthy (map snd kvs)"
    by (induction kvs) auto
  have e: "(\<forall>kv\<in>set kvs. \<not> truthy (snd kv)) \<longrightarrow> filter truthy (map snd kvs) = []"
    by (induction kvs) auto
  from f e t show ?thesis by simp
qed

theorem flattenValue_cases_witness:
  "flattenValue (Some (JObj [(''a'', JNull), (''b'', JStr []), (''c'', JNum 0)])) = [] \<and>
   flattenValue (Some (JObj [(''name'', JStr ''Z1''), (''cores'', JNull), (''node'', JStr ''4nm'')])) =
     ''Z1 / 4nm''"
proof -
  define kvs where "kvs = [(''a'', JNull), (''b'', JStr []), (''c'', JNum 0)]"
  define kvs' where "kvs' = [(''name'', JStr ''Z1''), (''cores'', JNull), (''node'', JStr ''4nm'')]"
  have h: "\<forall>kv\<in>set kvs. \<not> truthy (snd kv)" by (simp add: kvs_def)
  from flattenValue_cases [of kvs] h have 1: "flattenValue (Some (JObj kvs)) = []" by blast
  from flattenValue_cases [of kvs']
  have "flattenValue (Some (JObj kvs')) = join '' / '' (map js_String (filter truthy (map snd kvs')))"
    by blast
  also have "\<dots> = ''Z1 / 4nm''" by (simp add: kvs'_def)
  finally have 2: "flattenValue (Some (JObj kvs')) = ''Z1 / 4nm''" .
  from 1 2 show ?thesis unfolding kvs_def kvs'_def by (intro conjI)
qed

subsection \<open>Rendering twice\<close>

lemma existing_after_add:
  assumes "ps \<noteq> []"
  shows "existingProductSchema (addStructuredData stringify ps d) \<noteq> None"
proof (cases "existingProductSchema d")
  case None
  define new where "new = \<lparr>script_type = ''application/ld+json'',
      data_product_schema = Some ''true'',
      script_text = stringify (comparisonSchema (href d) ps)\<rparr>"
  from None assms have eq: "addStructuredData stringify ps d =
      d\<lparr>head_scripts := head_scripts d @ [new]\<rparr>"
    by (simp add: addStructuredData_def new_def)
  have "new \<in> set (head_scripts (d\<lparr>head_scripts := head_scripts d @ [new]\<rparr>))"
    and "data_product_schema new = Some ''true''"
    by (simp_all add: new_def)
  then show ?thesis
    unfolding eq existingProductSchema_def find_None_iff by auto
next
  case (Some s)
  with assms show ?thesis by (simp add: addStructuredData_def)
qed

lemma add_when_existing:
  "existingProductSchema d \<noteq> None \<Longrightarrow> addStructuredData stringify ps d = d"
  by (auto simp: addStructuredData_def)

lemma add_twice:
  assumes "ps \<noteq> [] \<or> ps' = []"
  shows "addStructuredData stringify ps' (addStructuredData stringify ps d) =
         addStructuredData stringify ps d"
proof (cases "ps' = []")
  case True
  then show ?thesis by (simp add: addStructuredData_def)
next
  case False
  with assms have "ps \<noteq> []" by simp
  from add_when_existing [OF existing_after_add [OF this]] show ?thesis .
qed

lemma ids_cong:
  "data_ids d' = data_ids d \<Longrightarrow> search_params d' = search_params d \<Longrightarrow>
   getComparisonIds d' = getComparisonIds d"
  by (simp add: getComparisonIds_def getQueryParams_def cong: option.case_cong)

lemma updatePageMeta_fields [simp]:
  "data_ids (updatePageMeta ps d) = data_ids d"
  "search_params (updatePageMeta ps d) = search_params d"
  "href (updatePageMeta ps d) = href d"
  "header_row (updatePageMeta ps d) = header_row d"
  "table_body (updatePageMeta ps d) = table_body d"
  "error_message (updatePageMeta ps d) = error_message d"
  "head_scripts (updatePageMeta ps d) = head_scripts d"
  "body_scripts (updatePageMeta ps d) = body_scripts d"
  by (simp_all add: updatePageMeta_def Let_def)

lemma addStructuredData_fields [simp]:
  "data_ids (addStructuredData stringify ps d) = data_ids d"
  "search_params (addStructuredData stringify ps d) = search_params d"
  "href (addStructuredData stringify ps d) = href d"
  "title_text (addStructuredData stringify ps d) = title_text d"
  "meta_description (addStructuredData stringify ps d) = meta_description d"
  "page_title (addStructuredData stringify ps d) = page_title d"
  "header_row (addStructuredData stringify ps d) = header_row d"
  "table_body (addStructuredData stringify ps d) = table_body d"
  "error_message (addStructuredData stringify ps d) = error_message d"
  "body_scripts (addStructuredData stringify ps d) = body_scripts d"
  by (simp_all add: addStructuredData_def split: option.splits)

lemma updatePageMeta_twice:
  "updatePageMeta ps (updatePageMeta ps d) = updatePageMeta ps d"
  by (simp add: updatePageMeta_def Let_def)


lemma existing_updatePageMeta [simp]:
  "existingProductSchema (updatePageMeta ps d) = existingProductSchema d"
  by (simp add: existingProductSchema_def)

lemma updatePageMeta_addStructuredData:
  "updatePageMeta ps (addStructuredData stringify ps' d) =
   addStructuredData stringify ps' (updatePageMeta ps d)"
  by (cases "existingProductSchema d")
     (simp_all add: addStructuredData_def, simp_all add: updatePageMeta_def Let_def)


lemma render_table_eq:
  "render_table serialize stringify ps d =
   (addStructuredData stringify ps (updatePageMeta ps d))
     \<lparr>header_row := Some (header_markup ps),
      table_body := Some (serialize (concat (spec_rows ps)) @ sourceRow ps)\<rparr>"
  by (simp add: render_table_def Let_def)

lemma updatePageMeta_other:
  "updatePageMeta ps (d\<lparr>header_row := h, table_body := t\<rparr>) =
   (updatePageMeta ps d)\<lparr>header_row := h, table_body := t\<rparr>"
  "updatePageMeta ps (d\<lparr>error_message := e\<rparr>) = (updatePageMeta ps d)\<lparr>error_message := e\<rparr>"
  by (simp_all add: updatePageMeta_def Let_def)

lemma addStructuredData_other:
  "addStructuredData stringify ps (d\<lparr>header_row := h, table_body := t\<rparr>) =
   (addStructuredData stringify ps d)\<lparr>header_row := h, table_body := t\<rparr>"
  "addStructuredData stringify ps (d\<lparr>error_message := e\<rparr>) =
   (addStructuredData stringify ps d)\<lparr>error_message := e\<rparr>"
  by (cases "existingProductSchema d"; simp add: addStructuredData_def existingProductSchema_def)+

lemma render_table_twice:
  "render_table serialize stringify ps (render_table serialize stringify ps d) = render_table serialize stringify ps d"
proof -
  have "addStructuredData stringify ps (updatePageMeta ps
          (addStructuredData stringify ps (updatePageMeta ps d))) =
        addStructuredData stringify ps (updatePageMeta ps d)"
    by (simp add: updatePageMeta_addStructuredData updatePageMeta_twice add_twice)
  then show ?thesis
    by (simp add: render_table_eq updatePageMeta_other addStructuredData_other)
qed

lemma render_table_error_message:
  "render_table serialize stringify ps (d\<lparr>error_message := e\<rparr>) =
   (render_table serialize stringify ps d)\<lparr>error_message := e\<rparr>"
  by (simp add: render_table_eq updatePageMeta_other addStructuredData_other)

lemma render_table_fields [simp]:
  "data_ids (render_table serialize stringify ps d) = data_ids d"
  "search_params (render_table serialize stringify ps d) = search_params d"
  "error_message (render_table serialize stringify ps d) = error_message d"
  "header_row (render_table serialize stringify ps d) = Some (header_markup ps)"
  "table_body (render_table serialize stringify ps d) = Some (serialize (concat (spec_rows ps)) @ sourceRow ps)"
  "body_scripts (render_table serialize stringify ps d) = body_scripts d"
  by (simp_all add: render_table_eq)

lemma on_error_fields [simp]:
  "data_ids (on_error d) = data_ids d"
  "search_params (on_error d) = search_params d"
  "header_row (on_error d) = header_row d"
  "table_body d \<noteq> None \<Longrightarrow> table_body (on_error d) \<noteq> None"
  "head_scripts (on_error d) = head_scripts d"
  "body_scripts (on_error d) = body_scripts d"
  by (simp_all add: on_error_def split: option.splits)

lemma on_error_twice: "on_error (on_error d) = on_error d"
  by (cases "error_message d") (simp_all add: on_error_def)


lemma generateComparisonTable_twice:
  "generateComparisonTable serialize stringify fetched (generateComparisonTable serialize stringify fetched d) =
   generateComparisonTable serialize stringify fetched d"
proof (cases "header_row d = None \<or> table_body d = None")
  case True
  then show ?thesis by (auto simp: generateComparisonTable_def Let_def)
next
  case elems: False
  show ?thesis
  proof (cases "getComparisonIds d = []")
    case True
    let ?d = "d\<lparr>table_body := Some select_placeholder\<rparr>"
    have "getComparisonIds ?d = getComparisonIds d" by (rule ids_cong) simp_all
    with True elems show ?thesis by (simp add: generateComparisonTable_def Let_def)
  next
    case ids: False
    show ?thesis
    proof (cases "resolve (getComparisonIds d) (fetchPhonesData fetched)")
      case (Inl e)
      have "getComparisonIds (on_error d) = getComparisonIds d" by (rule ids_cong) simp_all
      with Inl ids elems show ?thesis
        by (simp add: generateComparisonTable_def Let_def on_error_twice)
    next
      case (Inr ps)
      show ?thesis
      proof (cases "ps = []")
        case True
        show ?thesis
        proof (cases "error_message d")
          case None
          with True Inr ids elems show ?thesis
            by (simp add: generateComparisonTable_def Let_def on_error_def)
        next
          case (Some m)
          let ?d = "d\<lparr>error_message :=
                       Some (m\<lparr>msg_text := no_valid_ids_message, msg_display := ''block''\<rparr>),
                     table_body := Some no_match_placeholder\<rparr>"
          have "getComparisonIds ?d = getComparisonIds d" by (rule ids_cong) simp_all
          with Some True Inr ids elems show ?thesis
            by (simp add: generateComparisonTable_def Let_def)
        qed
      next
        case False
        let ?d5 = "render_table serialize stringify ps d"
        have i5: "getComparisonIds ?d5 = getComparisonIds d" by (rule ids_cong) simp_all
        show ?thesis
        proof (cases "error_message d")
          case None
          then have g: "generateComparisonTable serialize stringify fetched d = ?d5"
            using False Inr ids elems by (auto simp: generateComparisonTable_def Let_def on_error_def)
          from None False Inr ids i5 show ?thesis
            unfolding g by (simp add: generateComparisonTable_def Let_def on_error_def render_table_twice)
        next
          case (Some m)
          let ?d6 = "?d5\<lparr>error_message := Some (m\<lparr>msg_display := ''none''\<rparr>)\<rparr>"
          from Some have g: "generateComparisonTable serialize stringify fetched d = ?d6"
            using False Inr ids elems by (auto simp: generateComparisonTable_def Let_def)
          have i6: "getComparisonIds ?d6 = getComparisonIds d" by (rule ids_cong) simp_all
          from False Inr ids i6 show ?thesis
            unfolding g
            by (simp add: generateComparisonTable_def Let_def render_table_error_message
                  render_table_twice)
        qed
      qed
    qed
  qed
qed

text \<open>
  Claim C8. Injecting the structured data twice leaves the document as injecting it once
  does: after an injection for a non-empty list a product-schema script exists, and with
  such a script present an injection changes nothing. The same holds for the whole render:
  running \<^verbatim>\<open>generateComparisonTable\<close> again on the page it produced changes nothing.
\<close>

theorem structured_data_idempotent:
  "addStructuredData stringify ps (addStructuredData stringify ps d) =
     addStructuredData stringify ps d \<and>
   (ps \<noteq> [] \<longrightarrow> existingProductSchema (addStructuredData stringify ps d) \<noteq> None) \<and>
   (existingProductSchema d \<noteq> None \<longrightarrow> addStructuredData stringify ps' d = d) \<and>
   generateComparisonTable serialize stringify fetched (generateComparisonTable serialize stringify fetched d) =
     generateComparisonTable serialize stringify fetched d"
  using add_twice [of ps ps stringify d] existing_after_add [of ps stringify d]
    add_when_existing [of d stringify ps'] generateComparisonTable_twice [of serialize stringify fetched d]
  by simp


theorem structured_data_idempotent_witness:
  "[JObj [(''id'', JStr ''a''), (''brand'', JStr ''Acme''), (''model'', JStr ''X1'')]] \<noteq> [] \<and>
   existingProductSchema
     (addStructuredData (\<lambda>v. ''{}'')
        [JObj [(''id'', JStr ''a''), (''brand'', JStr ''Acme''), (''model'', JStr ''X1'')]]
        \<lparr>data_ids = None, search_params = [(''ids'', ''a'')], href = ''/compare.html?ids=a'',
         title_text = Some ''Compare'', meta_description = None, page_title = None,
         header_row = Some [], table_body = Some [],
         error_message = Some \<lparr>msg_text = [], msg_display = ''none''\<rparr>,
         head_scripts = [], body_scripts = []\<rparr>) \<noteq> None \<and>
   length (head_scripts
     (addStructuredData (\<lambda>v. ''{}'')
        [JObj [(''id'', JStr ''a''), (''brand'', JStr ''Acme''), (''model'', JStr ''X1'')]]
        (addStructuredData (\<lambda>v. ''{}'')
           [JObj [(''id'', JStr ''a''), (''brand'', JStr ''Acme''), (''model'', JStr ''X1'')]]
           \<lparr>data_ids = None, search_params = [(''ids'', ''a'')], href = ''/compare.html?ids=a'',
            title_text = Some ''Compare'', meta_description = None, page_title = None,
            header_row = Some [], table_body = Some [],
            error_message = Some \<lparr>msg_text = [], msg_display = ''none''\<rparr>,
            head_scripts = [], body_scripts = []\<rparr>))) = 1"
proof -
  define ps where "ps = [JObj [(''id'', JStr ''a''), (''brand'', JStr ''Acme''), (''model'', JStr ''X1'')]]"
  define f :: "json \<Rightarrow> string" where "f = (\<lambda>v. ''{}'')"
  define d0 where "d0 =
        \<lparr>data_ids = None, search_params = [(''ids'', ''a'')], href = ''/compare.html?ids=a'',
         title_text = Some ''Compare'', meta_description = None, page_title = None,
         header_row = Some [], table_body = Some [],
         error_message = Some \<lparr>msg_text = [], msg_display = ''none''\<rparr>,
         head_scripts = [], body_scripts = []\<rparr>"
  define d1 where "d1 = addStructuredData f ps d0"
  have n: "ps \<noteq> []" by (simp add: ps_def)
  from structured_data_idempotent [of f ps d0] n
  have e: "existingProductSchema d1 \<noteq> None" unfolding d1_def by blast
  from structured_data_idempotent [of f ps d1 ps] e
  have t: "addStructuredData f ps d1 = d1" by blast
  have "length (head_scripts d1) = 1"
    by (simp add: d1_def d0_def ps_def addStructuredData_def existingProductSchema_def)
  with t have l: "length (head_scripts (addStructuredData f ps d1)) = 1" by simp
  from n e l show ?thesis unfolding d1_def d0_def ps_def f_def by (intro conjI)
qed

subsection \<open>The empty request and the request without a match\<close>





subsection \<open>The source of the identifiers\<close>

lemma split_comma_append:
  "CHR '','' \<notin> set x \<Longrightarrow> split_comma (x @ CHR '','' # s) = x # split_comma s"
  by (induction x) auto

lemma split_comma_plain:
  "CHR '','' \<notin> set x \<Longrightarrow> split_comma x = [x]"
  by (induction x) auto

lemma split_comma_join:
  "xs \<noteq> [] \<Longrightarrow> \<forall>x\<in>set xs. CHR '','' \<notin> set x \<Longrightarrow> split_comma (join '','' xs) = xs"
proof (induction "'',''" xs rule: join.induct)
  case 1
  then show ?case by simp
next
  case (2 x)
  then show ?case by (simp add: split_comma_plain)
next
  case (3 x y ys)
  then show ?case using split_comma_append [of x "join '','' (y # ys)"] by simp
qed

text \<open>
  Claim C9 says that the \<^verbatim>\<open>data-ids\<close> attribute is used only in the absence of query
  parameters. The script looks at the attribute first: on a page with the attribute, an
  \<^verbatim>\<open>ids\<close> parameter of the URL is ignored.
\<close>

theorem data_ids_attribute_counterexample:
  "getComparisonIds
     \<lparr>data_ids = Some ''a,b'', search_params = [(''ids'', ''x,y'')],
      href = ''/compare/a-vs-b.html?ids=x,y'',
      title_text = None, meta_description = None, page_title = None,
      header_row = Some [], table_body = Some [], error_message = None,
      head_scripts = [], body_scripts = []\<rparr> = [''a'', ''b''] \<and>
   getQueryParams
     \<lparr>data_ids = Some ''a,b'', search_params = [(''ids'', ''x,y'')],
      href = ''/compare/a-vs-b.html?ids=x,y'',
      title_text = None, meta_description = None, page_title = None,
      header_row = Some [], table_body = Some [], error_message = None,
      head_scripts = [], body_scripts = []\<rparr> = [''x'', ''y'']"
  by (simp add: getComparisonIds_def getQueryParams_def trim_def is_space_def)

text \<open>
  Claim C9, amended. When an element carries the \<^verbatim>\<open>data-ids\<close> attribute, the identifiers
  are the trimmed items of its comma-separated list (none when it is empty), whatever the
  URL says. Only when no element carries it do they come from the URL: the trimmed items of
  the \<^verbatim>\<open>ids\<close> parameter in order, none when the parameter is absent.
\<close>

theorem data_ids_attribute_takes_precedence:
  "(data_ids d = Some a \<longrightarrow>
      getComparisonIds d = (if a \<noteq> [] then map trim (split_comma a) else []) \<and>
      getComparisonIds (d\<lparr>search_params := q\<rparr>) = getComparisonIds d) \<and>
   (data_ids d = None \<longrightarrow> getComparisonIds d = getQueryParams d) \<and>
   (data_ids d = None \<and> map_of (search_params d) ''ids'' = None \<longrightarrow> getComparisonIds d = []) \<and>
   (data_ids d = None \<and> map_of (search_params d) ''ids'' = Some [] \<longrightarrow> getComparisonIds d = []) \<and>
   (data_ids d = None \<and> map_of (search_params d) ''ids'' = Some s \<and> s \<noteq> [] \<longrightarrow>
      getComparisonIds d = map trim (split_comma s)) \<and>
   (data_ids d = None \<and> map_of (search_params d) ''ids'' = Some (join '','' xs) \<and>
      join '','' xs \<noteq> [] \<and> (\<forall>x\<in>set xs. CHR '','' \<notin> set x) \<longrightarrow>
      getComparisonIds d = map trim xs)"
proof -
  have "split_comma (join '','' xs) = xs"
    if "join '','' xs \<noteq> []" "\<forall>x\<in>set xs. CHR '','' \<notin> set x"
    using that by (intro split_comma_join) auto
  then show ?thesis
    by (auto simp: getComparisonIds_def getQueryParams_def)
qed


theorem data_ids_attribute_takes_precedence_witness:
  "getComparisonIds
     \<lparr>data_ids = None, search_params = [(''ids'', ''pixel-10, pixel-10-pro'')],
      href = ''/compare.html?ids=pixel-10,%20pixel-10-pro'',
      title_text = None, meta_description = None, page_title = None,
      header_row = Some [], table_body = Some [], error_message = None,
      head_scripts = [], body_scripts = []\<rparr> = [''pixel-10'', ''pixel-10-pro''] \<and>
   getComparisonIds
     \<lparr>data_ids = None, search_params = [(''ids'', [])], href = ''/compare.html?ids='',
      title_text = None, meta_description = None, page_title = None,
      header_row = Some [], table_body = Some [], error_message = None,
      head_scripts = [], body_scripts = []\<rparr> = [] \<and>
   getComparisonIds
     \<lparr>data_ids = None, search_params = [], href = ''/compare.html'',
      title_text = None, meta_description = None, page_title = None,
      header_row = Some [], table_body = Some [], error_message = None,
      head_scripts = [], body_scripts = []\<rparr> = [] \<and>
   getComparisonIds
     \<lparr>data_ids = Some ''a,b'', search_params = [(''ids'', ''x,y'')],
      href = ''/compare/a-vs-b.html?ids=x,y'',
      title_text = None, meta_description = None, page_title = None,
      header_row = Some [], table_body = Some [], error_message = None,
      head_scripts = [], body_scripts = []\<rparr> =
   getComparisonIds
     \<lparr>data_ids = Some ''a,b'', search_params = [],
      href = ''/compare/a-vs-b.html?ids=x,y'',
      title_text = None, meta_description = None, page_title = None,
      header_row = Some [], table_body = Some [], error_message = None,
      head_scripts = [], body_scripts = []\<rparr> \<and>
   getComparisonIds
     \<lparr>data_ids = Some ''a,b'', search_params = [(''ids'', ''x,y'')],
      href = ''/compare/a-vs-b.html?ids=x,y'',
      title_text = None, meta_description = None, page_title = None,
      header_row = Some [], table_body = Some [], error_message = None,
      head_scripts = [], body_scripts = []\<rparr> = [''a'', ''b'']"
proof -
  define d0 where "d0 =
     \<lparr>data_ids = None, search_params = [(''ids'', ''pixel-10, pixel-10-pro'')],
      href = ''/compare.html?ids=pixel-10,%20pixel-10-pro'',
      title_text = None, meta_description = None, page_title = None,
      header_row = Some [], table_body = Some [], error_message = None,
      head_scripts = [], body_scripts = []\<rparr>"
  define d1 where "d1 =
     \<lparr>data_ids = Some ''a,b'', search_params = [(''ids'', ''x,y'')],
      href = ''/compare/a-vs-b.html?ids=x,y'',
      title_text = None, meta_description = None, page_title = None,
      header_row = Some [], table_body = Some [], error_message = None,
      head_scripts = [], body_scripts = []\<rparr>"
  define d2 where "d2 =
     \<lparr>data_ids = None, search_params = [(''ids'', [])], href = ''/compare.html?ids='',
      title_text = None, meta_description = None, page_title = None,
      header_row = Some [], table_body = Some [], error_message = None,
      head_scripts = [], body_scripts = []\<rparr>"
  define d3 where "d3 =
     \<lparr>data_ids = None, search_params = [], href = ''/compare.html'',
      title_text = None, meta_description = None, page_title = None,
      header_row = Some [], table_body = Some [], error_message = None,
      head_scripts = [], body_scripts = []\<rparr>"
  define xs where "xs = [''pixel-10'', '' pixel-10-pro'']"
  define a where "a = ''a,b''"
  have a0: "data_ids d0 = None" by (simp add: d0_def)
  have b0: "map_of (search_params d0) ''ids'' = Some (join '','' xs)"
    by (simp add: d0_def xs_def)
  have c0: "join '','' xs \<noteq> []" by (simp add: xs_def)
  have e0: "\<forall>x\<in>set xs. CHR '','' \<notin> set x" by (simp add: xs_def)
  from data_ids_attribute_takes_precedence [of d0 _ _ _ xs] a0 b0 c0 e0
  have "getComparisonIds d0 = map trim xs" by blast
  also have "\<dots> = [''pixel-10'', ''pixel-10-pro'']"
    by (simp add: xs_def trim_def is_space_def)
  finally have r0: "getComparisonIds d0 = [''pixel-10'', ''pixel-10-pro'']" .
  have a2: "data_ids d2 = None" "map_of (search_params d2) ''ids'' = Some []"
    by (simp_all add: d2_def)
  from data_ids_attribute_takes_precedence [of d2] a2
  have r2: "getComparisonIds d2 = []" by blast
  have a3: "data_ids d3 = None" "map_of (search_params d3) ''ids'' = None"
    by (simp_all add: d3_def)
  from data_ids_attribute_takes_precedence [of d3] a3
  have r3: "getComparisonIds d3 = []" by blast
  have a1: "data_ids d1 = Some a" by (simp add: d1_def a_def)
  note T1 = data_ids_attribute_takes_precedence [of d1 a "[]"]
  from T1 a1
  have "getComparisonIds (d1\<lparr>search_params := []\<rparr>) = getComparisonIds d1" by blast
  then have r1: "getComparisonIds d1 = getComparisonIds (d1\<lparr>search_params := []\<rparr>)" by simp
  from T1 a1
  have "getComparisonIds d1 = (if a \<noteq> [] then map trim (split_comma a) else [])" by blast
  also have "\<dots> = [''a'', ''b'']" by (simp add: a_def trim_def is_space_def)
  finally have r4: "getComparisonIds d1 = [''a'', ''b'']" .
  from r0 r2 r3 r1 r4 show ?thesis unfolding d0_def d1_def d2_def d3_def by simp
qed

section \<open>Loading the dataset\<close>

lemma load_from_eq:
  "load_from net req ps =
   (case find (\<lambda>p. accepted net p \<noteq> None) ps of
      None \<Rightarrow> (req @ ps, Inl (Error ''No phone dataset found''))
    | Some p \<Rightarrow> (req @ takeWhile (\<lambda>p. accepted net p = None) ps @ [p], Inr (the (accepted net p))))"
proof (induction ps arbitrary: req)
  case Nil
  show ?case by simp
next
  case (Cons p ps)
  show ?case
  proof (cases "accepted net p")
    case None
    then have "load_from net req (p # ps) = load_from net (req @ [p]) ps"
      by (auto simp: accepted_def split: sum.splits option.splits if_splits)
    with None Cons [of "req @ [p]"] show ?thesis by (simp split: option.splits)
  next
    case (Some items)
    then have "load_from net req (p # ps) = (req @ [p], Inr items)"
      by (auto simp: accepted_def split: sum.splits option.splits if_splits)
    with Some show ?thesis by simp
  qed
qed

lemma accepted_iff:
  "accepted net p = Some items \<longleftrightarrow>
   (\<exists>kvs. net p = Response True (Some (JObj kvs)) \<and> map_of kvs ''items'' = Some items \<and> truthy items)"
proof (cases "net p")
  case NetworkError
  then show ?thesis by (simp add: accepted_def fetchJSON_def)
next
  case (Response ok body)
  show ?thesis
  proof (cases body)
    case None
    with Response show ?thesis by (simp add: accepted_def fetchJSON_def)
  next
    case (Some data)
    with Response show ?thesis
      by (cases data) (auto simp: accepted_def fetchJSON_def opt_prop_def split: option.splits)
  qed
qed

lemma distinct_paths: "distinct paths"
  by (simp add: paths_def)

lemma show_load_error_cases:
  "(load_error pg = None \<longrightarrow> show_load_error pg = pg) \<and>
   (load_error pg = Some b \<longrightarrow>
      load_error (show_load_error pg) =
        Some (b\<lparr>box_hidden := False,
                 box_text := ''Failed to load data. Ensure data/phones.json exists.''\<rparr>))"
  by (simp add: show_load_error_def)

text \<open>
  Claim C3 says that a candidate whose JSON is the array of records itself is accepted. The
  loader reads only the \<^verbatim>\<open>items\<close> property of the parsed value: when the first candidate
  serves a bare array and the others are missing, every candidate is tried and the load
  fails.
\<close>

theorem loader_bare_array_counterexample:
  "loadPhones (serve [(''/spec-ledger/data/phones.json'',
      Response True (Some (JArr [JObj [(''id'', JStr ''a'')]])))]) =
   (paths, Inl (Error ''No phone dataset found''))"
  by (simp add: loadPhones_def paths_def fetchJSON_def opt_prop_def serve_def)

text \<open>
  Claim C3, amended. The loader requests the candidate URLs in order, each at most once,
  and returns the \<^verbatim>\<open>items\<close> property of the first candidate whose response is ok, parses
  as JSON and is an object with a truthy \<^verbatim>\<open>items\<close>; the candidates after it are not
  requested. When no candidate qualifies, every candidate has been requested once, the
  loader throws the error that no phone dataset was found, and the handler shows its failure
  text in the \<^verbatim>\<open>#load-error\<close> element, if the page has one.
\<close>

theorem loader_returns_first_items:
  "((\<forall>p\<in>set paths. accepted net p = None) \<longrightarrow>
      loadPhones net = (paths, Inl (Error ''No phone dataset found'')) \<and>
      boot net render pg = show_load_error pg) \<and>
   ((\<exists>p\<in>set paths. accepted net p \<noteq> None) \<longrightarrow>
      (\<exists>p items. find (\<lambda>p. accepted net p \<noteq> None) paths = Some p \<and>
         accepted net p = Some items \<and>
         loadPhones net = (takeWhile (\<lambda>p. accepted net p = None) paths @ [p], Inr items))) \<and>
   distinct paths \<and>
   (accepted net p = Some items \<longleftrightarrow>
      (\<exists>kvs. net p = Response True (Some (JObj kvs)) \<and> map_of kvs ''items'' = Some items \<and>
         truthy items)) \<and>
   (load_error pg = None \<longrightarrow> show_load_error pg = pg) \<and>
   (load_error pg = Some b \<longrightarrow>
      load_error (show_load_error pg) =
        Some (b\<lparr>box_hidden := False,
                 box_text := ''Failed to load data. Ensure data/phones.json exists.''\<rparr>))"
proof -
  have 1: "loadPhones net = (paths, Inl (Error ''No phone dataset found'')) \<and>
      boot net render pg = show_load_error pg"
    if "\<forall>p\<in>set paths. accepted net p = None"
  proof -
    from that have "find (\<lambda>p. accepted net p \<noteq> None) paths = None"
      by (simp add: find_None_iff)
    then have "loadPhones net = (paths, Inl (Error ''No phone dataset found''))"
      by (simp add: loadPhones_def load_from_eq)
    then show ?thesis by (simp add: boot_def)
  qed
  have 2: "\<exists>p items. find (\<lambda>p. accepted net p \<noteq> None) paths = Some p \<and>
         accepted net p = Some items \<and>
         loadPhones net = (takeWhile (\<lambda>p. accepted net p = None) paths @ [p], Inr items)"
    if "\<exists>p\<in>set paths. accepted net p \<noteq> None"
  proof -
    from that obtain p where p: "find (\<lambda>p. accepted net p \<noteq> None) paths = Some p"
      by (cases "find (\<lambda>p. accepted net p \<noteq> None) paths") (auto simp: find_None_iff)
    then have "accepted net p \<noteq> None" by (auto simp: find_Some_iff)
    then obtain items where i: "accepted net p = Some items" by auto
    from p i have "loadPhones net =
        (takeWhile (\<lambda>p. accepted net p = None) paths @ [p], Inr items)"
      by (simp add: loadPhones_def load_from_eq)
    with p i show ?thesis by blast
  qed
  from 1 2 distinct_paths accepted_iff [of net p items] show_load_error_cases [of pg b]
  show ?thesis by blast
qed


theorem loader_returns_first_items_witness:
  "loadPhones (serve []) = (paths, Inl (Error ''No phone dataset found'')) \<and>
   load_error (boot (serve []) no_render \<lparr>load_error = Some \<lparr>box_hidden = True, box_text = []\<rparr>\<rparr>) =
     Some \<lparr>box_hidden = False,
           box_text = ''Failed to load data. Ensure data/phones.json exists.''\<rparr> \<and>
   loadPhones (serve [(''/spec-ledger/data/phones.example.json'', Response True (Some (JArr []))),
                      (''/data/phones.json'',
                       Response True (Some (JObj [(''items'', JArr [JObj [(''id'', JStr ''a'')]])])))]) =
     ([''/spec-ledger/data/phones.json'', ''/spec-ledger/data/phones.example.json'',
       ''/data/phones.json''],
      Inr (JArr [JObj [(''id'', JStr ''a'')]]))"
proof -
  define b where "b = \<lparr>box_hidden = True, box_text = []\<rparr>"
  define pg where "pg = \<lparr>load_error = Some b\<rparr>"
  define net0 where "net0 = serve []"
  define net1 where "net1 =
      serve [(''/spec-ledger/data/phones.example.json'', Response True (Some (JArr []))),
             (''/data/phones.json'',
              Response True (Some (JObj [(''items'', JArr [JObj [(''id'', JStr ''a'')]])])))]"
  have a0: "\<forall>p\<in>set paths. accepted net0 p = None"
    by (simp add: paths_def net0_def accepted_def fetchJSON_def serve_def)
  have l: "load_error pg = Some b" by (simp add: pg_def)
  note T0 = loader_returns_first_items [of net0 no_render pg _ _ b]
  from T0 a0 have r0: "loadPhones net0 = (paths, Inl (Error ''No phone dataset found''))"
    and b0: "boot net0 no_render pg = show_load_error pg"
    by blast+
  from T0 l have "load_error (show_load_error pg) =
      Some (b\<lparr>box_hidden := False,
               box_text := ''Failed to load data. Ensure data/phones.json exists.''\<rparr>)"
    by blast
  with b0 have e0: "load_error (boot net0 no_render pg) =
      Some \<lparr>box_hidden = False,
            box_text = ''Failed to load data. Ensure data/phones.json exists.''\<rparr>"
    by (simp add: b_def)
  have acc: "accepted net1 ''/spec-ledger/data/phones.json'' = None"
      "accepted net1 ''/spec-ledger/data/phones.example.json'' = None"
      "accepted net1 ''/data/phones.json'' = Some (JArr [JObj [(''id'', JStr ''a'')]])"
    by (simp_all add: net1_def accepted_def fetchJSON_def serve_def opt_prop_def)
  then have a1: "\<exists>p\<in>set paths. accepted net1 p \<noteq> None"
    by (simp add: paths_def)
  from loader_returns_first_items [of net1] a1
  obtain p items where f: "find (\<lambda>p. accepted net1 p \<noteq> None) paths = Some p"
    and i: "accepted net1 p = Some items"
    and r: "loadPhones net1 = (takeWhile (\<lambda>p. accepted net1 p = None) paths @ [p], Inr items)"
    by blast
  from acc have "find (\<lambda>p. accepted net1 p \<noteq> None) paths = Some ''/data/phones.json''"
    by (simp add: paths_def)
  with f have p: "p = ''/data/phones.json''" by simp
  with i acc have it: "items = JArr [JObj [(''id'', JStr ''a'')]]" by simp
  from acc have "takeWhile (\<lambda>p. accepted net1 p = None) paths =
      [''/spec-ledger/data/phones.json'', ''/spec-ledger/data/phones.example.json'']"
    by (simp add: paths_def)
  with r p it have r1: "loadPhones net1 =
      ([''/spec-ledger/data/phones.json'', ''/spec-ledger/data/phones.example.json'',
        ''/data/phones.json''],
       Inr (JArr [JObj [(''id'', JStr ''a'')]]))"
    by simp
  from r0 e0 r1 show ?thesis unfolding net0_def net1_def pg_def b_def by (intro conjI)
qed

section \<open>The filter of the index page\<close>

lemma text_of_empty [simp]: "text_of (Some (JStr s)) = [] \<longleftrightarrow> s = []"
  by (simp add: text_of_def toLowerCase_def)

lemma text_of_str: "text_of (Some (JStr s)) = toLowerCase s"
  by (simp add: text_of_def)

lemma matches_empty_query:
  "matches bv [] i =
   (if bv \<noteq> [] \<and> i = JNull then Inl TypeError
    else Inr (bv = [] \<or> read_prop i ''brand'' = Some (JStr bv)))"
  by (auto simp: matches_def Let_def)

lemma matches_returns: "i \<noteq> JNull \<Longrightarrow> \<exists>b. matches bv q i = Inr b"
  by (auto simp: matches_def Let_def)

lemma matches_relax:
  "matches bv q i = Inr b \<Longrightarrow> \<exists>b0. matches bv [] i = Inr b0 \<and> (b \<longrightarrow> b0)"
  by (auto simp: matches_empty_query) (auto simp: matches_def Let_def split: if_splits)

lemma filter_matches_returns:
  "JNull \<notin> set D \<Longrightarrow> \<exists>R. filter_matches bv q D = Inr R"
proof (induction D)
  case Nil
  show ?case by simp
next
  case (Cons i D)
  then obtain R where "filter_matches bv q D = Inr R" by auto
  moreover from Cons.prems obtain b where "matches bv q i = Inr b"
    using matches_returns [of i bv q] by auto
  ultimately show ?case by simp
qed

lemma filter_matches_relax:
  "filter_matches bv q D = Inr R \<Longrightarrow>
   \<exists>R0. filter_matches bv [] D = Inr R0 \<and> R = filter (\<lambda>i. matches bv q i = Inr True) R0"
proof (induction D arbitrary: R)
  case Nil
  then show ?case by simp
next
  case (Cons i D)
  from Cons.prems obtain b R' where b: "matches bv q i = Inr b"
    and R': "filter_matches bv q D = Inr R'" and R: "R = (if b then i # R' else R')"
    by (auto split: sum.splits)
  from Cons.IH [OF R'] obtain R0 where R0: "filter_matches bv [] D = Inr R0"
    and e: "R' = filter (\<lambda>i. matches bv q i = Inr True) R0"
    by blast
  from matches_relax [OF b] obtain b0 where b0: "matches bv [] i = Inr b0" and m: "b \<longrightarrow> b0"
    by blast
  from b b0 m R e R0 show ?case by auto
qed

text \<open>
  Claim C5. Filtering a dataset without \<^verbatim>\<open>null\<close> entries returns, and whenever filtering
  with a query returns, filtering with the empty query and the same brand constraint
  returns too, and its result contains every record of the first: the first result is the
  second restricted to the records that match the query.
\<close>

theorem relaxing_query_is_monotone:
  "(JNull \<notin> set D \<longrightarrow> (\<exists>R. filter_matches bv q D = Inr R)) \<and>
   (\<forall>R. filter_matches bv q D = Inr R \<longrightarrow>
      (\<exists>R0. filter_matches bv [] D = Inr R0 \<and> set R \<subseteq> set R0 \<and>
         R = filter (\<lambda>i. matches bv q i = Inr True) R0))"
proof -
  have "\<exists>R0. filter_matches bv [] D = Inr R0 \<and> set R \<subseteq> set R0 \<and>
         R = filter (\<lambda>i. matches bv q i = Inr True) R0"
    if "filter_matches bv q D = Inr R" for R
  proof -
    from filter_matches_relax [OF that] obtain R0 where "filter_matches bv [] D = Inr R0"
      and e: "R = filter (\<lambda>i. matches bv q i = Inr True) R0" by blast
    moreover from e have "set R \<subseteq> set R0" by auto
    ultimately show ?thesis by blast
  qed
  with filter_matches_returns [of D bv q] show ?thesis by blast
qed

lemma starts_with_iff: "starts_with s q \<longleftrightarrow> (\<exists>post. s = q @ post)"
  by (induction s q rule: starts_with.induct) auto

lemma js_includes_iff: "js_includes s q \<longleftrightarrow> (\<exists>pre post. s = pre @ q @ post)"
proof (induction s)
  case Nil
  show ?case by auto
next
  case (Cons x s)
  show ?case
  proof
    assume "js_includes (x # s) q"
    then consider "starts_with (x # s) q" | "js_includes s q" by auto
    then show "\<exists>pre post. x # s = pre @ q @ post"
    proof cases
      case 1
      then obtain post where "x # s = q @ post" by (auto simp: starts_with_iff)
      then have "x # s = [] @ q @ post" by simp
      then show ?thesis by blast
    next
      case 2
      with Cons obtain pre post where "s = pre @ q @ post" by auto
      then have "x # s = (x # pre) @ q @ post" by simp
      then show ?thesis by blast
    qed
  next
    assume "\<exists>pre post. x # s = pre @ q @ post"
    then obtain pre post where e: "x # s = pre @ q @ post" by blast
    show "js_includes (x # s) q"
    proof (cases pre)
      case Nil
      with e have "starts_with (x # s) q" by (auto simp: starts_with_iff)
      then show ?thesis by simp
    next
      case (Cons y pre')
      with e have "s = pre' @ q @ post" by simp
      with Cons.IH have "js_includes s q" by blast
      then show ?thesis by simp
    qed
  qed
qed


theorem relaxing_query_is_monotone_witness:
  "filter_matches [] ''z1''
     [JObj [(''id'', JStr ''a''), (''brand'', JStr ''Acme''), (''model'', JStr ''X1''),
            (''chipset'', JObj [(''name'', JStr ''Z1'')])],
      JObj [(''id'', JStr ''b''), (''brand'', JStr ''Bolt''), (''model'', JStr ''B2'')]] =
     Inr [JObj [(''id'', JStr ''a''), (''brand'', JStr ''Acme''), (''model'', JStr ''X1''),
                (''chipset'', JObj [(''name'', JStr ''Z1'')])]] \<and>
   filter_matches [] []
     [JObj [(''id'', JStr ''a''), (''brand'', JStr ''Acme''), (''model'', JStr ''X1''),
            (''chipset'', JObj [(''name'', JStr ''Z1'')])],
      JObj [(''id'', JStr ''b''), (''brand'', JStr ''Bolt''), (''model'', JStr ''B2'')]] =
     Inr [JObj [(''id'', JStr ''a''), (''brand'', JStr ''Acme''), (''model'', JStr ''X1''),
                (''chipset'', JObj [(''name'', JStr ''Z1'')])],
          JObj [(''id'', JStr ''b''), (''brand'', JStr ''Bolt''), (''model'', JStr ''B2'')]]"
proof -
  define ra where "ra = JObj [(''id'', JStr ''a''), (''brand'', JStr ''Acme''), (''model'', JStr ''X1''),
            (''chipset'', JObj [(''name'', JStr ''Z1'')])]"
  define rb where "rb = JObj [(''id'', JStr ''b''), (''brand'', JStr ''Bolt''), (''model'', JStr ''B2'')]"
  have ma: "matches [] ''z1'' ra = Inr True"
    by (simp add: ra_def matches_def Let_def text_of_def template_def opt_prop_def
          toLowerCase_def lower_char_def)
  have mb: "matches [] ''z1'' rb = Inr False"
    by (simp add: rb_def matches_def Let_def text_of_def template_def opt_prop_def
          toLowerCase_def lower_char_def)
  have n: "JNull \<notin> set [ra, rb]" by (simp add: ra_def rb_def)
  note T = relaxing_query_is_monotone [of "[ra, rb]" "[]" "''z1''"]
  from T n obtain R where R: "filter_matches [] ''z1'' [ra, rb] = Inr R" by blast
  with T obtain R0 where R0: "filter_matches [] [] [ra, rb] = Inr R0"
    and e: "R = filter (\<lambda>i. matches [] ''z1'' i = Inr True) R0"
    by blast
  from R0 have r0: "R0 = [ra, rb]" by (simp add: matches_empty_query)
  with e ma mb have "R = [ra]" by simp
  with R R0 r0 show ?thesis unfolding ra_def rb_def by simp
qed

lemma toLowerCase_Nil [simp]: "toLowerCase s = [] \<longleftrightarrow> s = []"
  by (simp add: toLowerCase_def)

lemma matches_strings:
  assumes "read_prop i ''brand'' = Some (JStr b)" and "read_prop i ''model'' = Some (JStr m)"
    and "read_prop i ''id'' = Some (JStr d)"
    and "opt_prop (opt_prop (Some i) ''chipset'') ''name'' = Some (JStr c)"
  shows "matches bv qv i =
         Inr ((bv = [] \<or> b = bv) \<and>
              (qv = [] \<or> js_includes (toLowerCase (b @ '' '' @ m @ '' '' @ d @ '' '' @ c))
                            (toLowerCase qv)))"
proof -
  from assms(1) have "i \<noteq> JNull" by auto
  with assms show ?thesis
    by (auto simp: matches_def Let_def text_of_str template_def)
qed

lemma repaint_scenario:
  "\<exists>c. repaint localDate
     [JObj [(''id'', JStr ''a''), (''brand'', JStr ''Acme''), (''model'', JStr ''X1''),
            (''chipset'', JObj [(''name'', JStr ''Z1'')])]]
     \<lparr>q_value = ''z1'', brand_value = [], count_text = [], grid = []\<rparr> =
   (None, \<lparr>q_value = ''z1'', brand_value = [], count_text = ''1 phones'', grid = [c]\<rparr>)"
proof -
  define r where "r = JObj [(''id'', JStr ''a''), (''brand'', JStr ''Acme''), (''model'', JStr ''X1''),
            (''chipset'', JObj [(''name'', JStr ''Z1'')])]"
  have m: "matches [] ''z1'' r = Inr True"
    by (simp add: r_def matches_def Let_def text_of_def template_def opt_prop_def
          toLowerCase_def lower_char_def)
  obtain c where c: "card_of localDate r = Inr c"
    by (simp add: r_def card_of_def Let_def el_def and_then_def str_def formatDate_def or_dash_def
        value_or_dash_def opt_prop_def template_def)
  from m c have "repaint localDate [r] \<lparr>q_value = ''z1'', brand_value = [], count_text = [], grid = []\<rparr> =
      (None, \<lparr>q_value = ''z1'', brand_value = [], count_text = ''1 phones'', grid = [c]\<rparr>)"
    by (simp add: repaint_def show_int_def digits.simps)
  then show ?thesis unfolding r_def by blast
qed

text \<open>
  Claim C4 speaks of the concatenation of brand, model, id and chipset name. The text that is
  searched separates the four by spaces, so the query \<^verbatim>\<open>acme x1\<close> matches the record of the
  scenario although the concatenation of its four values does not contain it. Besides, a
  value that is absent is searched as the text \<^verbatim>\<open>undefined\<close>: a record without chipset
  matches that query.
\<close>

theorem matches_concatenation_counterexample:
  "matches [] ''acme x1''
     (JObj [(''id'', JStr ''a''), (''brand'', JStr ''Acme''), (''model'', JStr ''X1''),
            (''chipset'', JObj [(''name'', JStr ''Z1'')])]) = Inr True \<and>
   \<not> js_includes (toLowerCase (''Acme'' @ ''X1'' @ ''a'' @ ''Z1'')) (toLowerCase ''acme x1'') \<and>
   matches [] ''undefined''
     (JObj [(''id'', JStr ''a''), (''brand'', JStr ''Acme''), (''model'', JStr ''X1'')]) = Inr True \<and>
   \<not> js_includes (toLowerCase (''Acme'' @ '' '' @ ''X1'' @ '' '' @ ''a'')) (toLowerCase ''undefined'')"
  by (simp add: matches_def Let_def text_of_def template_def opt_prop_def
        toLowerCase_def lower_char_def)

text \<open>
  Claim C4, amended. For a record whose brand, model, id and chipset name are strings, the
  filter matches exactly when the brand constraint is empty or equals the brand, and the
  query is empty or its lower-casing occurs in the lower-casing of the four values
  separated by single spaces. With an empty query any record matches exactly when the brand
  constraint is empty or equals its brand. For the dataset of the scenario and the query
  \<^verbatim>\<open>z1\<close>, repainting shows one card and counts one phone.
\<close>

theorem matches_brand_and_text:
  "(read_prop i ''brand'' = Some (JStr b) \<and> read_prop i ''model'' = Some (JStr m) \<and>
    read_prop i ''id'' = Some (JStr d) \<and>
    opt_prop (opt_prop (Some i) ''chipset'') ''name'' = Some (JStr c) \<longrightarrow>
      matches bv qv i =
        Inr ((bv = [] \<or> b = bv) \<and>
             (qv = [] \<or>
              (\<exists>pre post. toLowerCase (b @ '' '' @ m @ '' '' @ d @ '' '' @ c) =
                 pre @ toLowerCase qv @ post)))) \<and>
   (i \<noteq> JNull \<longrightarrow> matches bv [] i = Inr (bv = [] \<or> read_prop i ''brand'' = Some (JStr bv))) \<and>
   (\<exists>shown. repaint localDate
       [JObj [(''id'', JStr ''a''), (''brand'', JStr ''Acme''), (''model'', JStr ''X1''),
              (''chipset'', JObj [(''name'', JStr ''Z1'')])]]
       \<lparr>q_value = ''z1'', brand_value = [], count_text = [], grid = []\<rparr> =
     (None, \<lparr>q_value = ''z1'', brand_value = [], count_text = ''1 phones'', grid = [shown]\<rparr>))"
  using matches_strings [of i b m d c bv qv] repaint_scenario [of localDate]
  by (simp add: js_includes_iff matches_empty_query)


theorem matches_brand_and_text_witness:
  "matches [] ''z1''
     (JObj [(''id'', JStr ''a''), (''brand'', JStr ''Acme''), (''model'', JStr ''X1''),
            (''chipset'', JObj [(''name'', JStr ''Z1'')])]) = Inr True \<and>
   matches ''Bolt'' ''z1''
     (JObj [(''id'', JStr ''a''), (''brand'', JStr ''Acme''), (''model'', JStr ''X1''),
            (''chipset'', JObj [(''name'', JStr ''Z1'')])]) = Inr False"
proof -
  define r where "r = JObj [(''id'', JStr ''a''), (''brand'', JStr ''Acme''), (''model'', JStr ''X1''),
            (''chipset'', JObj [(''name'', JStr ''Z1'')])]"
  define b where "b = ''Acme''"
  define m where "m = ''X1''"
  define d where "d = ''a''"
  define c where "c = ''Z1''"
  define q where "q = ''z1''"
  define bolt where "bolt = ''Bolt''"
  define hay where "hay = toLowerCase (b @ '' '' @ m @ '' '' @ d @ '' '' @ c)"
  have h: "read_prop r ''brand'' = Some (JStr b) \<and> read_prop r ''model'' = Some (JStr m) \<and>
      read_prop r ''id'' = Some (JStr d) \<and>
      opt_prop (opt_prop (Some r) ''chipset'') ''name'' = Some (JStr c)"
    by (simp add: r_def b_def m_def d_def c_def opt_prop_def)
  have "js_includes hay (toLowerCase q)"
    by (simp add: hay_def b_def m_def d_def c_def q_def toLowerCase_def lower_char_def)
  then have e: "\<exists>pre post. hay = pre @ toLowerCase q @ post"
    by (simp add: js_includes_iff)
  from matches_brand_and_text [of r b m d c "[]" q, THEN conjunct1, THEN mp, OF h]
  have "matches [] q r = Inr (q = [] \<or> (\<exists>pre post. hay = pre @ toLowerCase q @ post))"
    unfolding hay_def by simp
  with e have 1: "matches [] q r = Inr True" by simp
  from matches_brand_and_text [of r b m d c bolt q, THEN conjunct1, THEN mp, OF h]
  have "matches bolt q r =
      Inr ((bolt = [] \<or> b = bolt) \<and> (q = [] \<or> (\<exists>pre post. hay = pre @ toLowerCase q @ post)))"
    unfolding hay_def by simp
  then have 2: "matches bolt q r = Inr False" by (simp add: b_def bolt_def)
  from 1 2 show ?thesis unfolding r_def q_def bolt_def by (intro conjI)
qed

end
